theory Spec2Isabelle
  imports Complex_Main
begin

section \<open>JavaScript strings\<close>

text \<open>
  A JavaScript string is a sequence of UTF-16 code units; a code unit is modelled as a
  natural number (below 65536 in every string the engine can build).  \<open>js\<close> turns an
  ASCII literal into such a string and \<open>ch\<close> a character into its code unit, so
  \<open>js ''{}''\<close> is \<open>[123, 125]\<close>.  The quotation mark and the backslash have names.
\<close>

type_synonym jsstring = "nat list"

definition js :: "string \<Rightarrow> jsstring" where
  "js s = map of_char s"

abbreviation ch :: "char \<Rightarrow> nat" where
  "ch c \<equiv> of_char c"

abbreviation dquote :: nat where
  "dquote \<equiv> 34"

abbreviation backslash :: nat where
  "backslash \<equiv> 92"

text \<open>
  \<open>String.prototype.trim\<close> strips the code units of \<open>WhiteSpace\<close> and \<open>LineTerminator\<close>
  from both ends.
\<close>

definition is_js_whitespace :: "nat \<Rightarrow> bool" where
  "is_js_whitespace c \<longleftrightarrow>
     c = 9 \<or> c = 10 \<or> c = 11 \<or> c = 12 \<or> c = 13 \<or> c = 32 \<or> c = 160 \<or> c = 5760 \<or>
     (8192 \<le> c \<and> c \<le> 8202) \<or> c = 8232 \<or> c = 8233 \<or> c = 8239 \<or> c = 8287 \<or>
     c = 12288 \<or> c = 65279"

definition trim :: "jsstring \<Rightarrow> jsstring" where
  "trim s = rev (dropWhile is_js_whitespace (rev (dropWhile is_js_whitespace s)))"

text \<open>
  \<open>s.replace(/ab/g, r)\<close> for a pattern of two literal code units, and for one: a scan
  from the left that never looks again at what it has replaced.
\<close>

fun replace2 :: "nat \<Rightarrow> nat \<Rightarrow> jsstring \<Rightarrow> jsstring \<Rightarrow> jsstring" where
  "replace2 a b r (x # y # s) =
     (if x = a \<and> y = b then r @ replace2 a b r s else x # replace2 a b r (y # s))"
| "replace2 a b r s = s"

definition replace1 :: "nat \<Rightarrow> jsstring \<Rightarrow> jsstring \<Rightarrow> jsstring" where
  "replace1 a r s = concat (map (\<lambda>x. if x = a then r else [x]) s)"

text \<open>
  \<open>a || b\<close> on an optional number and on an optional string: \<open>undefined\<close>, \<open>0\<close> and the
  empty string are falsy.
\<close>

definition num_or :: "real option \<Rightarrow> real \<Rightarrow> real" where
  "num_or a b = (case a of None \<Rightarrow> b | Some x \<Rightarrow> if x = 0 then b else x)"

definition str_or :: "jsstring option \<Rightarrow> jsstring \<Rightarrow> jsstring" where
  "str_or a b = (case a of None \<Rightarrow> b | Some s \<Rightarrow> if s = [] then b else s)"

section \<open>JSON values, \<open>JSON.parse\<close> and \<open>JSON.stringify\<close>\<close>

text \<open>
  Values as \<open>JSON.parse\<close> builds them.  An object is the list of its own enumerable
  properties in the order of their creation; the order in which the engine enumerates
  them is \<open>EnumerableOwnProperties\<close> below.  A number carries the text of its literal: the
  sidebar never computes with a parsed number.
\<close>

datatype json =
    JNull
  | JBool bool
  | JNumber jsstring
  | JString jsstring
  | JArray "json list"
  | JObject "(jsstring \<times> json) list"

subsection \<open>Tokens\<close>

text \<open>
  The JSON grammar of ECMA-262 (24.5.1): the six structural characters, string literals
  with their escapes (no raw control character), number literals
  \<open>-?(0|[1-9][0-9]*)(.[0-9]+)?([eE][+-]?[0-9]+)?\<close> and the three names.  A scanner returns
  what it read and how many code units it consumed.
\<close>

datatype token =
    TLBrace | TRBrace | TLBracket | TRBracket | TColon | TComma
  | TString jsstring | TNumber jsstring | TTrue | TFalse | TNull

definition is_digit :: "nat \<Rightarrow> bool" where
  "is_digit c \<longleftrightarrow> ch CHR ''0'' \<le> c \<and> c \<le> ch CHR ''9''"

definition hex_digit :: "nat \<Rightarrow> nat option" where
  "hex_digit c =
     (if ch CHR ''0'' \<le> c \<and> c \<le> ch CHR ''9'' then Some (c - ch CHR ''0'')
      else if ch CHR ''a'' \<le> c \<and> c \<le> ch CHR ''f'' then Some (c - ch CHR ''a'' + 10)
      else if ch CHR ''A'' \<le> c \<and> c \<le> ch CHR ''F'' then Some (c - ch CHR ''A'' + 10)
      else None)"

definition unescape :: "nat \<Rightarrow> nat option" where
  "unescape e =
     (if e = dquote then Some dquote
      else if e = backslash then Some backslash
      else if e = ch CHR ''/'' then Some (ch CHR ''/'')
      else if e = ch CHR ''b'' then Some 8
      else if e = ch CHR ''f'' then Some 12
      else if e = ch CHR ''n'' then Some 10
      else if e = ch CHR ''r'' then Some 13
      else if e = ch CHR ''t'' then Some 9
      else None)"

fun scan_string :: "jsstring \<Rightarrow> (jsstring \<times> nat) option" where
  "scan_string [] = None"
| "scan_string (c # cs) =
     (if c = dquote then Some ([], 1)
      else if c = backslash then
        (case cs of
           [] \<Rightarrow> None
         | e # cs' \<Rightarrow>
             if e = ch CHR ''u'' then
               (case cs' of
                  h1 # h2 # h3 # h4 # cs'' \<Rightarrow>
                    (case (hex_digit h1, hex_digit h2, hex_digit h3, hex_digit h4) of
                       (Some d1, Some d2, Some d3, Some d4) \<Rightarrow>
                         map_option (\<lambda>(s, n). ((((d1 * 16 + d2) * 16 + d3) * 16 + d4) # s, n + 6))
                           (scan_string cs'')
                     | _ \<Rightarrow> None)
                | _ \<Rightarrow> None)
             else
               (case unescape e of
                  None \<Rightarrow> None
                | Some u \<Rightarrow> map_option (\<lambda>(s, n). (u # s, n + 2)) (scan_string cs')))
      else if c < 32 then None
      else map_option (\<lambda>(s, n). (c # s, n + 1)) (scan_string cs))"

text \<open>
  A number literal is the longest run of digits, signs, points and exponent letters, and
  that run must match the grammar: in a JSON text a number is followed by white space, a
  comma or a closing bracket, so a shorter match could not be continued.
\<close>

definition number_exponent :: "jsstring \<Rightarrow> bool" where
  "number_exponent r =
     (case r of
        [] \<Rightarrow> True
      | e # r' \<Rightarrow>
          (e = ch CHR ''e'' \<or> e = ch CHR ''E'') \<and>
          (let ds = (case r' of
                       [] \<Rightarrow> []
                     | s # t \<Rightarrow> if s = ch CHR ''+'' \<or> s = ch CHR ''-'' then t else r')
           in ds \<noteq> [] \<and> list_all is_digit ds))"

definition number_fraction :: "jsstring \<Rightarrow> bool" where
  "number_fraction r =
     (case r of
        [] \<Rightarrow> True
      | p # r' \<Rightarrow>
          if p = ch CHR ''.'' then
            (case r' of
               [] \<Rightarrow> False
             | d # r'' \<Rightarrow> is_digit d \<and> number_exponent (dropWhile is_digit r''))
          else number_exponent r)"

definition number_literal :: "jsstring \<Rightarrow> bool" where
  "number_literal s =
     (case (case s of [] \<Rightarrow> [] | m # r \<Rightarrow> if m = ch CHR ''-'' then r else s) of
        [] \<Rightarrow> False
      | d # r \<Rightarrow>
          if d = ch CHR ''0'' then number_fraction r
          else is_digit d \<and> number_fraction (dropWhile is_digit r))"

definition is_number_char :: "nat \<Rightarrow> bool" where
  "is_number_char c \<longleftrightarrow>
     is_digit c \<or> c = ch CHR ''-'' \<or> c = ch CHR ''+'' \<or> c = ch CHR ''.'' \<or>
     c = ch CHR ''e'' \<or> c = ch CHR ''E''"

definition scan_token :: "jsstring \<Rightarrow> (token \<times> nat) option" where
  "scan_token s =
     (case s of
        [] \<Rightarrow> None
      | c # cs \<Rightarrow>
          if c = ch CHR ''{'' then Some (TLBrace, 1)
          else if c = ch CHR ''}'' then Some (TRBrace, 1)
          else if c = ch CHR ''['' then Some (TLBracket, 1)
          else if c = ch CHR '']'' then Some (TRBracket, 1)
          else if c = ch CHR '':'' then Some (TColon, 1)
          else if c = ch CHR '','' then Some (TComma, 1)
          else if c = dquote then map_option (\<lambda>(v, n). (TString v, n + 1)) (scan_string cs)
          else if take 4 s = js ''true'' then Some (TTrue, 4)
          else if take 5 s = js ''false'' then Some (TFalse, 5)
          else if take 4 s = js ''null'' then Some (TNull, 4)
          else
            (let lit = takeWhile is_number_char s
             in if number_literal lit then Some (TNumber lit, length lit) else None))"

text \<open>
  The token list of a text, or \<open>None\<close> where the engine throws a \<open>SyntaxError\<close>.  The
  first argument counts the code units still to skip: those of the token just read.
\<close>

definition is_json_whitespace :: "nat \<Rightarrow> bool" where
  "is_json_whitespace c \<longleftrightarrow> c = 9 \<or> c = 10 \<or> c = 13 \<or> c = 32"

fun tokenize :: "nat \<Rightarrow> jsstring \<Rightarrow> token list option" where
  "tokenize k [] = Some []"
| "tokenize k (c # cs) =
     (if 0 < k then tokenize (k - 1) cs
      else if is_json_whitespace c then tokenize 0 cs
      else
        (case scan_token (c # cs) of
           None \<Rightarrow> None
         | Some (t, n) \<Rightarrow> map_option ((#) t) (tokenize (n - 1) cs)))"

subsection \<open>The parser\<close>

text \<open>
  \<open>CreateDataProperty\<close>, which \<open>JSON.parse\<close> uses for every member: a repeated key keeps
  its place and takes the later value; \<open>__proto__\<close> is a key like any other.
\<close>

fun define_property :: "(jsstring \<times> json) list \<Rightarrow> jsstring \<Rightarrow> json \<Rightarrow> (jsstring \<times> json) list" where
  "define_property [] k v = [(k, v)]"
| "define_property ((k', v') # ps) k v =
     (if k' = k then (k, v) # ps else (k', v') # define_property ps k v)"

text \<open>
  The parser reads the tokens from left to right with a stack of the arrays and objects
  that are still open (an open object remembers the key whose value is being read) and
  what the grammar admits next.
\<close>

datatype frame =
    InArray "json list"
  | InObject "(jsstring \<times> json) list" "jsstring option"

datatype expect =
    WantValue | WantValueOrClose | WantKey | WantKeyOrClose | WantColon | WantCommaOrClose
  | Finished json

definition deliver :: "json \<Rightarrow> frame list \<Rightarrow> (frame list \<times> expect) option" where
  "deliver v st =
     (case st of
        [] \<Rightarrow> Some ([], Finished v)
      | InArray elems # st' \<Rightarrow> Some (InArray (elems @ [v]) # st', WantCommaOrClose)
      | InObject props (Some k) # st' \<Rightarrow>
          Some (InObject (define_property props k v) None # st', WantCommaOrClose)
      | InObject props None # st' \<Rightarrow> None)"

definition close_frame :: "token \<Rightarrow> frame list \<Rightarrow> (frame list \<times> expect) option" where
  "close_frame t st =
     (case st of
        InArray elems # st' \<Rightarrow> if t = TRBracket then deliver (JArray elems) st' else None
      | InObject props None # st' \<Rightarrow> if t = TRBrace then deliver (JObject props) st' else None
      | _ \<Rightarrow> None)"

definition open_value :: "token \<Rightarrow> frame list \<Rightarrow> (frame list \<times> expect) option" where
  "open_value t st =
     (case t of
        TLBracket \<Rightarrow> Some (InArray [] # st, WantValueOrClose)
      | TLBrace \<Rightarrow> Some (InObject [] None # st, WantKeyOrClose)
      | TString s \<Rightarrow> deliver (JString s) st
      | TNumber n \<Rightarrow> deliver (JNumber n) st
      | TTrue \<Rightarrow> deliver (JBool True) st
      | TFalse \<Rightarrow> deliver (JBool False) st
      | TNull \<Rightarrow> deliver JNull st
      | _ \<Rightarrow> None)"

definition expect_key :: "token \<Rightarrow> frame list \<Rightarrow> (frame list \<times> expect) option" where
  "expect_key t st =
     (case (t, st) of
        (TString k, InObject props None # st') \<Rightarrow> Some (InObject props (Some k) # st', WantColon)
      | _ \<Rightarrow> None)"

definition parse_step :: "frame list \<times> expect \<Rightarrow> token \<Rightarrow> (frame list \<times> expect) option" where
  "parse_step s t =
     (case s of (st, e) \<Rightarrow>
        (case e of
           WantValue \<Rightarrow> open_value t st
         | WantValueOrClose \<Rightarrow> if t = TRBracket then close_frame t st else open_value t st
         | WantKey \<Rightarrow> expect_key t st
         | WantKeyOrClose \<Rightarrow> if t = TRBrace then close_frame t st else expect_key t st
         | WantColon \<Rightarrow> if t = TColon then Some (st, WantValue) else None
         | WantCommaOrClose \<Rightarrow>
             if t = TComma then
               (case st of
                  InArray elems # st' \<Rightarrow> Some (st, WantValue)
                | InObject props None # st' \<Rightarrow> Some (st, WantKey)
                | _ \<Rightarrow> None)
             else close_frame t st
         | Finished v \<Rightarrow> None))"

fun parse_tokens :: "frame list \<times> expect \<Rightarrow> token list \<Rightarrow> json option" where
  "parse_tokens s [] = (case s of ([], Finished v) \<Rightarrow> Some v | _ \<Rightarrow> None)"
| "parse_tokens s (t # ts) =
     (case parse_step s t of None \<Rightarrow> None | Some s' \<Rightarrow> parse_tokens s' ts)"

text \<open>\<open>JSON.parse(text)\<close>; \<open>None\<close> is the \<open>SyntaxError\<close>.\<close>

definition JSON_parse :: "jsstring \<Rightarrow> json option" where
  "JSON_parse text = (case tokenize 0 text of None \<Rightarrow> None | Some ts \<Rightarrow> parse_tokens ([], WantValue) ts)"

subsection \<open>The order of properties\<close>

text \<open>
  An array index is a property name that is the canonical decimal numeral of an integer
  from 0 to 4294967294: digits only, no leading zero.  \<open>OrdinaryOwnPropertyKeys\<close> lists
  the array indices of an object first, in ascending numeric order, and then the other
  names in the order of their creation; \<open>Object.keys\<close>, \<open>Object.entries\<close> and
  \<open>JSON.stringify\<close> all enumerate the properties in that order.
\<close>

definition digits_value :: "jsstring \<Rightarrow> nat" where
  "digits_value k = foldl (\<lambda>n c. 10 * n + (c - ch CHR ''0'')) 0 k"

definition array_index :: "jsstring \<Rightarrow> nat option" where
  "array_index k =
     (if k \<noteq> [] \<and> list_all is_digit k \<and> (k = [ch CHR ''0''] \<or> hd k \<noteq> ch CHR ''0'') \<and>
         digits_value k < 4294967295
      then Some (digits_value k)
      else None)"

definition index_rank :: "jsstring \<times> 'a \<Rightarrow> nat" where
  "index_rank p = (case array_index (fst p) of None \<Rightarrow> 0 | Some i \<Rightarrow> i)"

definition EnumerableOwnProperties :: "(jsstring \<times> 'a) list \<Rightarrow> (jsstring \<times> 'a) list" where
  "EnumerableOwnProperties obj =
     sort_key index_rank (filter (\<lambda>p. array_index (fst p) \<noteq> None) obj) @
     filter (\<lambda>p. array_index (fst p) = None) obj"

subsection \<open>The printer\<close>

text \<open>
  \<open>QuoteJSONString\<close>: the short escapes, a four-digit \<open>u\<close> escape for the other control characters and
  for a surrogate that is not part of a pair, everything else as it is.
\<close>

definition hex_char :: "nat \<Rightarrow> nat" where
  "hex_char d = (if d < 10 then ch CHR ''0'' + d else ch CHR ''a'' + (d - 10))"

definition unicode_escape :: "nat \<Rightarrow> jsstring" where
  "unicode_escape c =
     [backslash, ch CHR ''u'', hex_char (c div 4096 mod 16), hex_char (c div 256 mod 16),
      hex_char (c div 16 mod 16), hex_char (c mod 16)]"

definition is_high_surrogate :: "nat \<Rightarrow> bool" where
  "is_high_surrogate c \<longleftrightarrow> 55296 \<le> c \<and> c \<le> 56319"

definition is_low_surrogate :: "nat \<Rightarrow> bool" where
  "is_low_surrogate c \<longleftrightarrow> 56320 \<le> c \<and> c \<le> 57343"

definition quote_unit :: "nat \<Rightarrow> jsstring" where
  "quote_unit c =
     (if c = 8 then [backslash, ch CHR ''b'']
      else if c = 9 then [backslash, ch CHR ''t'']
      else if c = 10 then [backslash, ch CHR ''n'']
      else if c = 12 then [backslash, ch CHR ''f'']
      else if c = 13 then [backslash, ch CHR ''r'']
      else if c = dquote then [backslash, dquote]
      else if c = backslash then [backslash, backslash]
      else if c < 32 \<or> is_high_surrogate c \<or> is_low_surrogate c then unicode_escape c
      else [c])"

fun quote_units :: "jsstring \<Rightarrow> jsstring" where
  "quote_units [] = []"
| "quote_units [c] = quote_unit c"
| "quote_units (c # d # s) =
     (if is_high_surrogate c \<and> is_low_surrogate d then c # d # quote_units s
      else quote_unit c @ quote_units (d # s))"

definition QuoteJSONString :: "jsstring \<Rightarrow> jsstring" where
  "QuoteJSONString s = [dquote] @ quote_units s @ [dquote]"

text \<open>
  \<open>SerializeJSONProperty\<close> for a value without \<open>undefined\<close>, functions or \<open>toJSON\<close>, with
  the gap and the current indentation: an empty array or object is \<open>[]\<close> or \<open>{}\<close>; with an
  empty gap the members are separated by commas; otherwise each member stands on a line
  of its own, indented one gap deeper, and a key is followed by a colon and a space.
\<close>

fun join :: "'a list \<Rightarrow> 'a list list \<Rightarrow> 'a list" where
  "join sep [] = []"
| "join sep [x] = x"
| "join sep (x # y # xs) = x @ sep @ join sep (y # xs)"

definition wrap :: "jsstring \<Rightarrow> jsstring \<Rightarrow> jsstring \<Rightarrow> jsstring \<Rightarrow> jsstring list \<Rightarrow> jsstring" where
  "wrap l r gap indent partial =
     (if partial = [] then l @ r
      else if gap = [] then l @ join (js '','') partial @ r
      else l @ [10] @ (indent @ gap) @ join (js '','' @ [10] @ (indent @ gap)) partial @ [10] @ indent @ r)"

function SerializeJSONProperty :: "jsstring \<Rightarrow> jsstring \<Rightarrow> json \<Rightarrow> jsstring" where
  "SerializeJSONProperty gap indent JNull = js ''null''"
| "SerializeJSONProperty gap indent (JBool b) = (if b then js ''true'' else js ''false'')"
| "SerializeJSONProperty gap indent (JNumber n) = n"
| "SerializeJSONProperty gap indent (JString s) = QuoteJSONString s"
| "SerializeJSONProperty gap indent (JArray xs) =
     wrap (js ''['') (js '']'') gap indent (map (SerializeJSONProperty gap (indent @ gap)) xs)"
| "SerializeJSONProperty gap indent (JObject ps) =
     wrap (js ''{'') (js ''}'') gap indent
       (map (\<lambda>(k, v). QuoteJSONString k @ js '':'' @ (if gap = [] then [] else js '' '') @
                        SerializeJSONProperty gap (indent @ gap) v)
            (EnumerableOwnProperties ps))"
  by pat_completeness auto

termination
proof (relation "measure (\<lambda>(gap, indent, v). size v)")
  show "wf (measure (\<lambda>(gap, indent, v). size v))"
    by simp
next
  fix gap indent :: jsstring and xs :: "json list" and x
  assume "x \<in> set xs"
  then have "size x < Suc (size_list size xs)"
    by (induction xs) auto
  then show "((gap, indent @ gap, x), (gap, indent, JArray xs)) \<in> measure (\<lambda>(gap, indent, v). size v)"
    by simp
next
  fix gap indent :: jsstring and ps :: "(jsstring \<times> json) list" and p k v
  assume "p \<in> set (EnumerableOwnProperties ps)" and "(k, v) = p"
  then have "(k, v) \<in> set ps"
    by (auto simp: EnumerableOwnProperties_def)
  then have "size v < Suc (size_list (size_prod (\<lambda>k. 0) size) ps)"
    by (induction ps) auto
  then show "((gap, indent @ gap, v), (gap, indent, JObject ps)) \<in> measure (\<lambda>(gap, indent, v). size v)"
    by simp
qed

text \<open>\<open>JSON.stringify(v, null, space)\<close> for a numeric \<open>space\<close>: a gap of up to ten spaces.\<close>

definition JSON_stringify :: "json \<Rightarrow> nat \<Rightarrow> jsstring" where
  "JSON_stringify v space = SerializeJSONProperty (replicate (min space 10) 32) [] v"

subsection \<open>Values that are printed and parsed back\<close>

text \<open>
  A value is \<open>plain\<close> when it holds no number and every object in it has no key twice and
  its properties in the order of their enumeration, as an object built by \<open>JSON.parse\<close>
  from a printed text has them; the tokens of a value are those of its JSON text.
\<close>

fun plain :: "json \<Rightarrow> bool" where
  "plain JNull = True"
| "plain (JBool b) = True"
| "plain (JNumber n) = False"
| "plain (JString s) = True"
| "plain (JArray xs) = list_all plain xs"
| "plain (JObject ps) =
     (distinct (map fst ps) \<and> EnumerableOwnProperties ps = ps \<and> list_all (\<lambda>(k, v). plain v) ps)"

fun tokens_of :: "json \<Rightarrow> token list" where
  "tokens_of JNull = [TNull]"
| "tokens_of (JBool b) = [if b then TTrue else TFalse]"
| "tokens_of (JNumber n) = [TNumber n]"
| "tokens_of (JString s) = [TString s]"
| "tokens_of (JArray xs) = [TLBracket] @ join [TComma] (map tokens_of xs) @ [TRBracket]"
| "tokens_of (JObject ps) =
     [TLBrace] @ join [TComma] (map (\<lambda>(k, v). [TString k, TColon] @ tokens_of v) ps) @ [TRBrace]"

section \<open>The schema translator\<close>

text \<open>
  An assignment \<open>obj[key] = v\<close> to an ordinary object creates or overwrites the own property
  \<open>key\<close>, with one exception: for the key \<open>__proto__\<close> it runs the setter inherited from
  \<open>Object.prototype\<close>, which replaces the prototype of \<open>obj\<close> (when \<open>v\<close> is an object or
  \<open>null\<close>) or does nothing, and in neither case adds an own property.  The prototype is not
  seen by \<open>Object.keys\<close>, \<open>Object.entries\<close> or \<open>JSON.stringify\<close>, so it is not represented.
  \<open>Object.keys\<close> gives the names of the own properties in the order of their enumeration.
\<close>

definition set_property :: "(jsstring \<times> json) list \<Rightarrow> jsstring \<Rightarrow> json \<Rightarrow> (jsstring \<times> json) list" where
  "set_property obj key v = (if key = js ''__proto__'' then obj else define_property obj key v)"

definition Object_keys :: "(jsstring \<times> 'a) list \<Rightarrow> jsstring list" where
  "Object_keys obj = map fst (EnumerableOwnProperties obj)"

subsection \<open>\<open>generateJsonSchemaFromSchema\<close>\<close>

text \<open>
  The loop over \<open>Object.entries(schema)\<close>, which returns \<open>null\<close> at the first empty key or
  type and otherwise assigns \<open>jsonSchema.properties[key] = { type }\<close>.
\<close>

fun add_properties ::
  "(jsstring \<times> jsstring) list \<Rightarrow> (jsstring \<times> json) list \<Rightarrow> (jsstring \<times> json) list option" where
  "add_properties [] properties = Some properties"
| "add_properties ((key, type) # entries) properties =
     (if key = [] \<or> type = [] then None
      else add_properties entries (set_property properties key (JObject [(js ''type'', JString type)])))"

text \<open>
  The schema is a \<open>Record<string, string>\<close>: its own properties in the order of their
  creation; \<open>Object.entries(schema)\<close> enumerates them.  Nothing in the \<open>try\<close> block can throw
  for such a schema, so the \<open>catch\<close> is not reached.
\<close>

definition generateJsonSchemaFromSchema :: "(jsstring \<times> jsstring) list \<Rightarrow> jsstring option" where
  "generateJsonSchemaFromSchema schema =
     (if Object_keys schema = [] then None
      else
        (case add_properties (EnumerableOwnProperties schema) [] of
           None \<Rightarrow> None
         | Some properties \<Rightarrow>
             Some (JSON_stringify
                     (JObject [(js ''type'', JString (js ''object'')),
                               (js ''required'', JArray (map JString (Object_keys schema))),
                               (js ''properties'', JObject properties)])
                     2)))"

subsection \<open>\<open>extractSchemaFromJsonSchema\<close>\<close>

text \<open>
  The cleaned text: the six replacements of the cleanup pass in the order of the source,
  and the trim that ends the chain (the text is trimmed once more where it is parsed).
\<close>

definition cleanup :: "jsstring \<Rightarrow> jsstring" where
  "cleanup jsonSchema =
     trim (replace1 backslash []
          (replace2 backslash (ch CHR ''t'') []
          (replace2 backslash (ch CHR ''n'') []
          (replace2 backslash (ch CHR '']'') (js '']'')
          (replace2 backslash (ch CHR ''['') (js ''['')
          (replace2 backslash dquote [dquote] jsonSchema))))))"

datatype exn = TypeError

text \<open>
  \<open>v.name\<close> for a name that is neither an index nor \<open>length\<close> nor defined by a built-in
  prototype (here \<open>properties\<close> and \<open>type\<close>): the own property of an object, \<open>undefined\<close>
  on an array or a primitive, a \<open>TypeError\<close> on \<open>null\<close>.  For such a name \<open>name in v\<close> holds
  of an object or array exactly when the result is not \<open>None\<close>, and throws on \<open>null\<close>.
\<close>

definition get_property :: "json \<Rightarrow> jsstring \<Rightarrow> exn + json option" where
  "get_property v key =
     (case v of
        JNull \<Rightarrow> Inl TypeError
      | JObject ps \<Rightarrow> Inr (map_of ps key)
      | _ \<Rightarrow> Inr None)"

text \<open>\<open>typeof v === 'object'\<close>, which holds of \<open>null\<close> too.\<close>

definition typeof_object :: "json \<Rightarrow> bool" where
  "typeof_object v = (case v of JNull \<Rightarrow> True | JArray xs \<Rightarrow> True | JObject ps \<Rightarrow> True | _ \<Rightarrow> False)"

text \<open>
  Truthiness.  A number literal is taken as zero when its digits before the exponent are
  all zero; a literal that the engine rounds to zero is falsy as well, but a number for
  \<open>properties\<close> yields \<open>null\<close> on either branch.
\<close>

definition zero_literal :: "jsstring \<Rightarrow> bool" where
  "zero_literal n =
     list_all (\<lambda>c. c = ch CHR ''0'' \<or> c = ch CHR ''-'' \<or> c = ch CHR ''.'')
       (takeWhile (\<lambda>c. c \<noteq> ch CHR ''e'' \<and> c \<noteq> ch CHR ''E'') n)"

definition truthy :: "json \<Rightarrow> bool" where
  "truthy v =
     (case v of
        JNull \<Rightarrow> False
      | JBool b \<Rightarrow> b
      | JNumber n \<Rightarrow> \<not> zero_literal n
      | JString s \<Rightarrow> s \<noteq> []
      | _ \<Rightarrow> True)"

text \<open>
  \<open>Object.entries\<close> of a truthy value: the properties of an object in the order of their
  enumeration, the indexed elements of an array, the indexed one-unit strings of a string,
  nothing for a number or \<open>true\<close>.
\<close>

fun decimal :: "nat \<Rightarrow> jsstring" where
  "decimal n = (if n < 10 then [ch CHR ''0'' + n] else decimal (n div 10) @ [ch CHR ''0'' + n mod 10])"

declare decimal.simps [simp del]

definition Object_entries :: "json \<Rightarrow> (jsstring \<times> json) list" where
  "Object_entries v =
     (case v of
        JObject ps \<Rightarrow> EnumerableOwnProperties ps
      | JArray xs \<Rightarrow> zip (map decimal [0..<length xs]) xs
      | JString s \<Rightarrow> zip (map decimal [0..<length s]) (map (\<lambda>c. JString [c]) s)
      | _ \<Rightarrow> [])"

text \<open>
  The loop \<open>if (typeof value === 'object' && 'type' in value) schema[key] = value.type\<close>.
\<close>

fun collect_types ::
  "(jsstring \<times> json) list \<Rightarrow> (jsstring \<times> json) list \<Rightarrow> exn + (jsstring \<times> json) list" where
  "collect_types [] schema = Inr schema"
| "collect_types ((key, v) # entries) schema =
     (if typeof_object v then
        (case get_property v (js ''type'') of
           Inl e \<Rightarrow> Inl e
         | Inr (Some t) \<Rightarrow> collect_types entries (set_property schema key t)
         | Inr None \<Rightarrow> collect_types entries schema)
      else collect_types entries schema)"

text \<open>What follows the two parse attempts, inside the outer \<open>try\<close>.\<close>

definition schema_of_parsed :: "json \<Rightarrow> exn + (jsstring \<times> json) list option" where
  "schema_of_parsed parsed =
     (case get_property parsed (js ''properties'') of
        Inl e \<Rightarrow> Inl e
      | Inr None \<Rightarrow> Inr None
      | Inr (Some properties) \<Rightarrow>
          if truthy properties then
            (case collect_types (Object_entries properties) [] of
               Inl e \<Rightarrow> Inl e
             | Inr schema \<Rightarrow> Inr (if 0 < length (Object_keys schema) then Some schema else None))
          else Inr None)"

text \<open>
  The two parse attempts: the value of \<open>parsed\<close> after the direct parse or, when that
  throws, after the parse of the cleaned text; \<open>None\<close> when the inner \<open>catch\<close> returns
  \<open>null\<close>.
\<close>

definition parsed_document :: "jsstring \<Rightarrow> json option" where
  "parsed_document jsonSchema =
     (case JSON_parse (trim jsonSchema) of
        Some parsed \<Rightarrow> Some parsed
      | None \<Rightarrow> JSON_parse (trim (cleanup jsonSchema)))"

text \<open>The body of the outer \<open>try\<close>.\<close>

definition extract_try :: "jsstring \<Rightarrow> exn + (jsstring \<times> json) list option" where
  "extract_try jsonSchema =
     (case parsed_document jsonSchema of
        None \<Rightarrow> Inr None
      | Some parsed \<Rightarrow> schema_of_parsed parsed)"

text \<open>
  The function returns its result together with what it wrote with \<open>console.error\<close>: the
  outer \<open>catch\<close> is the only place that logs.
\<close>

definition extractSchemaFromJsonSchema :: "jsstring \<Rightarrow> (jsstring \<times> json) list option \<times> jsstring list" where
  "extractSchemaFromJsonSchema jsonSchema =
     (case extract_try jsonSchema of
        Inl e \<Rightarrow> (None, [js ''Error parsing JSON schema:''])
      | Inr r \<Rightarrow> (r, []))"

section \<open>Nodes, configurations and the node-type registry\<close>

text \<open>
  The graph node that \<open>createNode\<close> builds (a position and a measured size are pairs of
  numbers; an absent optional field is \<open>None\<close>), and an edge of the graph.
\<close>

record node_data =
  title :: jsstring
  acronym :: jsstring
  color :: jsstring
  logo :: "jsstring option"
  category :: "jsstring option"

record FlowWorkflowNode =
  id' :: jsstring
  type' :: jsstring
  position :: "real \<times> real"
  measured :: "(real \<times> real) option"
  parentId :: "jsstring option"
  expandParent :: "bool option"
  extent :: "jsstring option"
  data :: node_data
  width :: "real option"
  height :: "real option"

record Edge =
  source :: jsstring
  target :: jsstring

text \<open>
  \<open>ModelConstraints\<close>, and the part of \<open>FlowWorkflowNodeConfig\<close> that the sidebar and the
  factory read and write.  Every field of a configuration is optional.  An output schema
  holds what \<open>extractSchemaFromJsonSchema\<close> put there: any JSON value can stand for a type.
\<close>

record ModelConstraints =
  min_temperature :: real
  max_temperature :: real
  max_tokens :: real
  supports_JSON_output :: bool

record llm_info =
  model :: "jsstring option"
  max_tokens :: "real option"
  temperature :: "real option"

record FlowWorkflowNodeConfig =
  title :: "jsstring option"
  output_schema :: "(jsstring \<times> json) list option"
  output_json_schema :: "jsstring option"
  llm_info :: "llm_info option"

record VisualTag =
  acronym :: jsstring
  color :: jsstring

record FlowWorkflowNodeType =
  name :: jsstring
  config :: FlowWorkflowNodeConfig
  model_constraints :: "(jsstring \<times> ModelConstraints) list option"
  visual_tag :: VisualTag
  logo :: "jsstring option"
  category :: "jsstring option"

text \<open>The registry: the categories in \<open>for ... in\<close> order, each with its node types.\<close>

type_synonym FlowWorkflowNodeTypesByCategory = "(jsstring \<times> FlowWorkflowNodeType list) list"

text \<open>The actions of the flow slice that the sidebar dispatches.\<close>

datatype action =
    updateNodeConfigOnly jsstring FlowWorkflowNodeConfig
  | updateNodeTitle jsstring jsstring

section \<open>The node factory\<close>

text \<open>
  The search loop of \<open>createNode\<close> (and of \<open>findNodeSchema\<close>): the first category, in
  iteration order, whose list holds a type of the given name decides.
\<close>

fun find_type :: "FlowWorkflowNodeTypesByCategory \<Rightarrow> jsstring \<Rightarrow> FlowWorkflowNodeType option" where
  "find_type [] t = None"
| "find_type ((cat, types) # rest) t =
     (case List.find (\<lambda>node. name node = t) types of
        Some found \<Rightarrow> Some found
      | None \<Rightarrow> find_type rest t)"

text \<open>\<open>cloneDeep\<close> copies a value; values here have no identity, so the copy is the value.\<close>

definition cloneDeep :: "'a \<Rightarrow> 'a" where
  "cloneDeep x = x"

text \<open>\<open>parentId ? a : undefined\<close>: \<open>null\<close> and the empty string are falsy.\<close>

definition if_parent :: "jsstring option \<Rightarrow> 'a \<Rightarrow> 'a option" where
  "if_parent p a = (case p of None \<Rightarrow> None | Some s \<Rightarrow> if s = [] then None else Some a)"

definition createNode ::
  "FlowWorkflowNodeTypesByCategory \<Rightarrow> jsstring \<Rightarrow> jsstring \<Rightarrow> real \<times> real \<Rightarrow> jsstring option \<Rightarrow>
   (real \<times> real) option \<Rightarrow> (FlowWorkflowNode \<times> FlowWorkflowNodeConfig) option" where
  "createNode nodeTypes t i pos parent dimensions =
     (case find_type nodeTypes t of
        None \<Rightarrow> None
      | Some nodeType \<Rightarrow>
          Some (\<lparr>id' = i,
                 type' = name nodeType,
                 position = pos,
                 measured = dimensions,
                 parentId = parent,
                 expandParent = if_parent parent True,
                 extent = if_parent parent (js ''parent''),
                 data = \<lparr>node_data.title = i,
                         node_data.acronym = VisualTag.acronym (visual_tag nodeType),
                         node_data.color = VisualTag.color (visual_tag nodeType),
                         node_data.logo = logo nodeType,
                         node_data.category = category nodeType\<rparr>,
                 width = map_option fst dimensions,
                 height = map_option snd dimensions\<rparr>,
                (cloneDeep (config nodeType))\<lparr>title := Some i\<rparr>))"

section \<open>The sidebar\<close>

text \<open>\<open>findNodeSchema\<close>.\<close>

definition findNodeSchema ::
  "jsstring \<Rightarrow> FlowWorkflowNodeTypesByCategory option \<Rightarrow> FlowWorkflowNodeType option" where
  "findNodeSchema nodeType nodeTypes =
     (case nodeTypes of None \<Rightarrow> None | Some cats \<Rightarrow> find_type cats nodeType)"

text \<open>
  \<open>getModelConstraints\<close>.  The constraints that a node type declares are the own
  properties of its \<open>model_constraints\<close>, so \<open>model_constraints[modelId]\<close> is the declared
  value for a declared identifier and \<open>undefined\<close> for any other, with one exception: for
  an undeclared identifier that is the name of a member of \<open>Object.prototype\<close> (they are
  listed in \<open>Object_prototype_names\<close>) the lookup yields the inherited member, a truthy
  value that is no \<open>ModelConstraints\<close> and has no place in the result type.  The definition
  gives the result of the function for every identifier that is declared or is not such a
  name.
\<close>

definition Object_prototype_names :: "jsstring list" where
  "Object_prototype_names =
     [js ''constructor'', js ''__defineGetter__'', js ''__defineSetter__'', js ''hasOwnProperty'',
      js ''__lookupGetter__'', js ''__lookupSetter__'', js ''isPrototypeOf'',
      js ''propertyIsEnumerable'', js ''toString'', js ''valueOf'', js ''__proto__'',
      js ''toLocaleString'']"

definition getModelConstraints ::
  "FlowWorkflowNodeType option \<Rightarrow> jsstring \<Rightarrow> ModelConstraints option" where
  "getModelConstraints nodeSchema modelId =
     (case nodeSchema of
        None \<Rightarrow> None
      | Some s \<Rightarrow>
          (case model_constraints s of
             None \<Rightarrow> None
           | Some cs \<Rightarrow> map_of cs modelId))"

subsection \<open>\<open>collectIncomingSchema\<close>\<close>

text \<open>
  The edges into the node, each resolved to the first node with the edge's source id,
  folded from the left: a source that is missing, has no committed configuration or no
  \<open>output_schema\<close> adds nothing; any other adds \<open>`${config.title || node.id}.${key}`\<close> for
  each key of its schema.
\<close>

definition collectIncomingSchema ::
  "FlowWorkflowNode list \<Rightarrow> Edge list \<Rightarrow> (jsstring \<Rightarrow> FlowWorkflowNodeConfig option) \<Rightarrow> jsstring \<Rightarrow>
   jsstring list" where
  "collectIncomingSchema nodes edges allNodeConfigs nodeID =
     (let incomingEdges = filter (\<lambda>edge. target edge = nodeID) edges;
          incomingNodes = map (\<lambda>edge. List.find (\<lambda>n. id' n = source edge) nodes) incomingEdges
      in foldl
           (\<lambda>acc node.
              case node of
                None \<Rightarrow> acc
              | Some n \<Rightarrow>
                  (case allNodeConfigs (id' n) of
                     None \<Rightarrow> acc
                   | Some c \<Rightarrow>
                       (case output_schema c of
                          None \<Rightarrow> acc
                        | Some schema \<Rightarrow>
                            (let nodeTitle = str_or (title c) (id' n)
                             in acc @ map (\<lambda>key. nodeTitle @ js ''.'' @ key) (Object_keys schema)))))
           [] incomingNodes)"

subsection \<open>State and handlers\<close>

text \<open>
  The component state that the handlers below touch: the working copy of the
  configuration, the flag that guards the title alert, and the pending call of the
  debounced dispatch, if any: the time at which it fires and its arguments.  Time is
  counted in milliseconds.  A handler maps the state to the new state and the actions it
  dispatches, in order.
\<close>

record sidebar =
  currentNodeConfig :: FlowWorkflowNodeConfig
  showTitleError :: bool
  pendingDispatch :: "(nat \<times> jsstring \<times> FlowWorkflowNodeConfig) option"

text \<open>
  The state of a sidebar when it is mounted, as the initial values of its state hooks give
  it: \<open>useState(nodeConfig || {})\<close> and \<open>useState(false)\<close>, and a debounced function that has
  not been called.  The effects that run after the first rendering are not part of
  \<open>mount\<close>: they set the default model of an LLM node and generate a missing
  \<open>output_json_schema\<close>, which changes the working copy only.  The handlers below are
  defined on every state.
\<close>

definition empty_config :: FlowWorkflowNodeConfig where
  "empty_config = \<lparr>title = None, output_schema = None, output_json_schema = None, llm_info = None\<rparr>"

definition mount :: "FlowWorkflowNodeConfig option \<Rightarrow> sidebar" where
  "mount nodeConfig =
     \<lparr>currentNodeConfig = (case nodeConfig of None \<Rightarrow> empty_config | Some c \<Rightarrow> c),
      showTitleError = False,
      pendingDispatch = None\<rparr>"

text \<open>
  Modelled from the spec: lodash's \<open>debounce\<close>, which is not among the sources.  The call
  \<open>debounce(f, 300)\<close> gives a function that, when called, arms a timer of 300 ms for its
  arguments and so replaces a timer armed before (section 5: the timer is reset on each
  new edit and fires after 300 ms of inactivity, committing the latest arguments).
\<close>

definition debouncedDispatch :: "nat \<Rightarrow> jsstring \<Rightarrow> FlowWorkflowNodeConfig \<Rightarrow> sidebar \<Rightarrow> sidebar" where
  "debouncedDispatch now i updatedModel st = st\<lparr>pendingDispatch := Some (now + 300, i, updatedModel)\<rparr>"

text \<open>
  Modelled from the spec: the timer of lodash's \<open>debounce\<close> (section 5).  \<open>elapse now\<close> lets
  the time advance to \<open>now\<close>: a timer that is due fires and dispatches its arguments.
\<close>

definition elapse :: "nat \<Rightarrow> sidebar \<Rightarrow> sidebar \<times> action list" where
  "elapse now st =
     (case pendingDispatch st of
        None \<Rightarrow> (st, [])
      | Some (due, i, updatedModel) \<Rightarrow>
          if due \<le> now then (st\<lparr>pendingDispatch := None\<rparr>, [updateNodeConfigOnly i updatedModel])
          else (st, []))"

text \<open>
  \<open>handleInputChange(key, value, isSlider)\<close>.  The pair of key and value is given as the
  assignment it stands for: \<open>assign c\<close> is \<open>{...c, [key]: value}\<close>, or for a dotted key the
  deep clone of \<open>c\<close> with \<open>value\<close> set at that path.
\<close>

definition handleInputChange ::
  "jsstring \<Rightarrow> nat \<Rightarrow> (FlowWorkflowNodeConfig \<Rightarrow> FlowWorkflowNodeConfig) \<Rightarrow> bool \<Rightarrow> sidebar \<Rightarrow>
   sidebar \<times> action list" where
  "handleInputChange nodeID now assign isSlider st =
     (let updatedModel = assign (currentNodeConfig st);
          st' = st\<lparr>currentNodeConfig := updatedModel\<rparr>
      in if isSlider then (debouncedDispatch now nodeID updatedModel st', [])
         else (st', [updateNodeConfigOnly nodeID updatedModel]))"

text \<open>
  \<open>handleTitleChangeComplete\<close>.  \<open>convertToPythonVariableName\<close> is imported from a file
  that is not among the sources and is a parameter here.
\<close>

definition handleTitleChangeComplete ::
  "(jsstring \<Rightarrow> jsstring) \<Rightarrow> jsstring \<Rightarrow> jsstring \<Rightarrow> sidebar \<Rightarrow> sidebar \<times> action list" where
  "handleTitleChangeComplete convertToPythonVariableName nodeID v st =
     (let validTitle = convertToPythonVariableName v
      in (st, [updateNodeTitle nodeID validTitle]))"

text \<open>
  The title alert is rendered exactly when \<open>showTitleError\<close> holds; its \<open>onClose\<close> is the
  only call of \<open>setShowTitleError\<close> in the component.
\<close>

definition title_alert_shown :: "sidebar \<Rightarrow> bool" where
  "title_alert_shown st = showTitleError st"

definition closeTitleAlert :: "sidebar \<Rightarrow> sidebar \<times> action list" where
  "closeTitleAlert st = (st\<lparr>showTitleError := False\<rparr>, [])"

text \<open>\<open>{...currentNodeConfig.llm_info}\<close>: spreading \<open>undefined\<close> gives the empty object.\<close>

definition spread_llm_info :: "llm_info option \<Rightarrow> llm_info" where
  "spread_llm_info l =
     (case l of
        None \<Rightarrow> \<lparr>model = None, llm_info.max_tokens = None, temperature = None\<rparr>
      | Some i \<Rightarrow> i)"

text \<open>\<open>c.llm_info?.model\<close>, \<open>c.llm_info?.max_tokens\<close> and \<open>c.llm_info?.temperature\<close>.\<close>

definition llm_model :: "FlowWorkflowNodeConfig \<Rightarrow> jsstring option" where
  "llm_model c = (case llm_info c of None \<Rightarrow> None | Some i \<Rightarrow> model i)"

definition llm_max_tokens :: "FlowWorkflowNodeConfig \<Rightarrow> real option" where
  "llm_max_tokens c = (case llm_info c of None \<Rightarrow> None | Some i \<Rightarrow> llm_info.max_tokens i)"

definition llm_temperature :: "FlowWorkflowNodeConfig \<Rightarrow> real option" where
  "llm_temperature c = (case llm_info c of None \<Rightarrow> None | Some i \<Rightarrow> temperature i)"

text \<open>
  The \<open>onChange\<close> handler of the model selector in \<open>renderEnumSelect\<close>: the new
  \<open>llm_info\<close> is the old one with \<open>model\<close> replaced and, when the node type has
  constraints for the selected model, with \<open>max_tokens\<close> and \<open>temperature\<close> replaced by
  \<open>Math.min(max_tokens || c.max_tokens, c.max_tokens)\<close> and
  \<open>Math.min(Math.max(temperature || 0.7, c.min_temperature), c.max_temperature)\<close>.
\<close>

definition changeModel ::
  "FlowWorkflowNodeType option \<Rightarrow> jsstring \<Rightarrow> jsstring \<Rightarrow> sidebar \<Rightarrow> sidebar \<times> action list" where
  "changeModel nodeSchema nodeID selectedModelId st =
     (let modelConstraints = getModelConstraints nodeSchema selectedModelId;
          cur = currentNodeConfig st;
          info = (spread_llm_info (llm_info cur))\<lparr>model := Some selectedModelId\<rparr>;
          info' =
            (case modelConstraints of
               None \<Rightarrow> info
             | Some c \<Rightarrow>
                 info\<lparr>llm_info.max_tokens :=
                        Some (min (num_or (llm_max_tokens cur) (ModelConstraints.max_tokens c))
                                  (ModelConstraints.max_tokens c)),
                      temperature :=
                        Some (min (max (num_or (llm_temperature cur) 0.7) (min_temperature c))
                                  (max_temperature c))\<rparr>);
          updatedModel = cur\<lparr>llm_info := Some info'\<rparr>
      in (st\<lparr>currentNodeConfig := updatedModel\<rparr>, [updateNodeConfigOnly nodeID updatedModel]))"

text \<open>
  The \<open>onChange\<close> handlers of the two schema editors in \<open>renderField\<close>.  Both set the
  working copy with \<open>{...prev, ...updates}\<close> and dispatch \<open>{...currentNodeConfig, ...updates}\<close>,
  where \<open>prev\<close> is the working copy the handler was rendered with.
\<close>

definition updateOutputSchema ::
  "jsstring \<Rightarrow> nat \<Rightarrow> (jsstring \<times> jsstring) list \<Rightarrow> sidebar \<Rightarrow> sidebar \<times> action list" where
  "updateOutputSchema nodeID now newValue st =
     (let simple = map (\<lambda>(k, t). (k, JString t)) newValue
      in if length (Object_keys newValue) = 0 then
           handleInputChange nodeID now (\<lambda>c. c\<lparr>output_schema := Some simple\<rparr>) False st
         else
           (case generateJsonSchemaFromSchema newValue of
              Some jsonSchema \<Rightarrow>
                (let updated = (currentNodeConfig st)\<lparr>output_schema := Some simple,
                                                      output_json_schema := Some jsonSchema\<rparr>
                 in (st\<lparr>currentNodeConfig := updated\<rparr>, [updateNodeConfigOnly nodeID updated]))
            | None \<Rightarrow>
                handleInputChange nodeID now (\<lambda>c. c\<lparr>output_schema := Some simple\<rparr>) False st))"

definition updateOutputJsonSchema ::
  "jsstring \<Rightarrow> nat \<Rightarrow> jsstring \<Rightarrow> sidebar \<Rightarrow> sidebar \<times> action list" where
  "updateOutputJsonSchema nodeID now v st =
     (if trim v = [] then
        handleInputChange nodeID now (\<lambda>c. c\<lparr>output_json_schema := Some v\<rparr>) False st
      else
        (case fst (extractSchemaFromJsonSchema v) of
           Some simpleSchema \<Rightarrow>
             (let updated = (currentNodeConfig st)\<lparr>output_json_schema := Some v,
                                                   output_schema := Some simpleSchema\<rparr>
              in (st\<lparr>currentNodeConfig := updated\<rparr>, [updateNodeConfigOnly nodeID updated]))
         | None \<Rightarrow>
             handleInputChange nodeID now (\<lambda>c. c\<lparr>output_json_schema := Some v\<rparr>) False st))"

subsection \<open>Sessions\<close>

text \<open>
  What the user can do in the sidebar, and a session: events in the order of their
  times.  Before an event is handled the time advances to it, so a debounced dispatch
  that is due has fired.
\<close>

datatype event =
    ModelSelected jsstring
  | FieldEdited "FlowWorkflowNodeConfig \<Rightarrow> FlowWorkflowNodeConfig" bool
  | OutputSchemaEdited "(jsstring \<times> jsstring) list"
  | OutputJsonSchemaEdited jsstring
  | TitleCompleted jsstring
  | TitleAlertClosed

definition handle ::
  "(jsstring \<Rightarrow> jsstring) \<Rightarrow> FlowWorkflowNodeType option \<Rightarrow> jsstring \<Rightarrow> nat \<Rightarrow> event \<Rightarrow> sidebar \<Rightarrow>
   sidebar \<times> action list" where
  "handle convertToPythonVariableName nodeSchema nodeID now ev st =
     (case ev of
        ModelSelected m \<Rightarrow> changeModel nodeSchema nodeID m st
      | FieldEdited assign isSlider \<Rightarrow> handleInputChange nodeID now assign isSlider st
      | OutputSchemaEdited newValue \<Rightarrow> updateOutputSchema nodeID now newValue st
      | OutputJsonSchemaEdited v \<Rightarrow> updateOutputJsonSchema nodeID now v st
      | TitleCompleted v \<Rightarrow> handleTitleChangeComplete convertToPythonVariableName nodeID v st
      | TitleAlertClosed \<Rightarrow> closeTitleAlert st)"

fun run ::
  "(jsstring \<Rightarrow> jsstring) \<Rightarrow> FlowWorkflowNodeType option \<Rightarrow> jsstring \<Rightarrow> (nat \<times> event) list \<Rightarrow> sidebar \<Rightarrow>
   sidebar \<times> action list" where
  "run conv nodeSchema nodeID [] st = (st, [])"
| "run conv nodeSchema nodeID ((now, ev) # evs) st =
     (let (st1, fired) = elapse now st;
          (st2, dispatched) = handle conv nodeSchema nodeID now ev st1;
          (st3, later) = run conv nodeSchema nodeID evs st2
      in (st3, fired @ dispatched @ later))"

text \<open>A session that ends with the time advancing to \<open>final\<close>.\<close>

definition session ::
  "(jsstring \<Rightarrow> jsstring) \<Rightarrow> FlowWorkflowNodeType option \<Rightarrow> jsstring \<Rightarrow> (nat \<times> event) list \<Rightarrow> nat \<Rightarrow>
   sidebar \<Rightarrow> sidebar \<times> action list" where
  "session conv nodeSchema nodeID evs final st =
     (let (st1, dispatched) = run conv nodeSchema nodeID evs st;
          (st2, fired) = elapse final st1
      in (st2, dispatched @ fired))"

text \<open>
  Slider edits of one field: \<open>put v\<close> is the assignment of the value \<open>v\<close> to the field, and
  each edit comes with its time.  The slider of \<open>llm_info.temperature\<close> is an example:
  lodash's \<open>set\<close> creates \<open>llm_info\<close> where it is missing.  Times are \<open>rapid\<close> when they
  do not decrease and each is less than 300 ms after the one before.
\<close>

definition slider_edits :: "('v \<Rightarrow> FlowWorkflowNodeConfig \<Rightarrow> FlowWorkflowNodeConfig) \<Rightarrow> (nat \<times> 'v) list \<Rightarrow> (nat \<times> event) list" where
  "slider_edits put tvs = map (\<lambda>(t, v). (t, FieldEdited (put v) True)) tvs"

definition set_temperature :: "real \<Rightarrow> FlowWorkflowNodeConfig \<Rightarrow> FlowWorkflowNodeConfig" where
  "set_temperature v c = c\<lparr>llm_info := Some ((spread_llm_info (llm_info c))\<lparr>temperature := Some v\<rparr>)\<rparr>"

fun rapid :: "nat list \<Rightarrow> bool" where
  "rapid (t # t' # ts) \<longleftrightarrow> t \<le> t' \<and> t' < t + 300 \<and> rapid (t' # ts)"
| "rapid ts \<longleftrightarrow> True"

section \<open>Example values\<close>

text \<open>A node type with constraints for one model, used to instantiate the theorems below.\<close>

definition example_type :: FlowWorkflowNodeType where
  "example_type =
     \<lparr>name = js ''SingleLLMCallNode'',
      config = empty_config,
      model_constraints =
        Some [(js ''small'',
               \<lparr>min_temperature = 0, max_temperature = 1, ModelConstraints.max_tokens = 4096,
                supports_JSON_output = True\<rparr>)],
      visual_tag = \<lparr>acronym = js ''LLM'', color = js ''#fff''\<rparr>,
      logo = None,
      category = None\<rparr>"

definition example_constraints :: ModelConstraints where
  "example_constraints = \<lparr>min_temperature = 0, max_temperature = 1, ModelConstraints.max_tokens = 4096,
                supports_JSON_output = True\<rparr>"

definition example_node :: "jsstring \<Rightarrow> FlowWorkflowNode" where
  "example_node i =
     \<lparr>id' = i, type' = js ''SingleLLMCallNode'', position = (0, 0), measured = None, parentId = None,
      expandParent = None, extent = None,
      data = \<lparr>node_data.title = i, node_data.acronym = js ''LLM'', node_data.color = js ''#fff'',
              node_data.logo = None, node_data.category = None\<rparr>,
      width = None, height = None\<rparr>"

section \<open>Properties of the order of enumeration\<close>

lemma set_EnumerableOwnProperties: "set (EnumerableOwnProperties obj) = set obj"
  by (auto simp: EnumerableOwnProperties_def)

lemma length_EnumerableOwnProperties: "length (EnumerableOwnProperties obj) = length obj"
  using sum_length_filter_compl [of "\<lambda>p. array_index (fst p) \<noteq> None" obj]
  by (simp add: EnumerableOwnProperties_def del: not_None_eq)

lemma EnumerableOwnProperties_Nil_iff: "EnumerableOwnProperties obj = [] \<longleftrightarrow> obj = []"
  using length_EnumerableOwnProperties [of obj] by (metis length_0_conv)

lemma EnumerableOwnProperties_named:
  "\<forall>p \<in> set obj. array_index (fst p) = None \<Longrightarrow> EnumerableOwnProperties obj = obj"
  by (simp add: EnumerableOwnProperties_def filter_empty_conv)

lemma EnumerableOwnProperties_idem:
  "EnumerableOwnProperties (EnumerableOwnProperties obj) = EnumerableOwnProperties obj"
proof -
  let ?ix = "sort_key index_rank (filter (\<lambda>p. array_index (fst p) \<noteq> None) obj)"
  let ?named = "filter (\<lambda>p. array_index (fst p) = None) obj"
  have 1: "filter (\<lambda>p. array_index (fst p) \<noteq> None) (?ix @ ?named) = ?ix"
    by (auto simp: filter_empty_conv filter_id_conv)
  have 2: "filter (\<lambda>p. array_index (fst p) = None) (?ix @ ?named) = ?named"
    by (auto simp: filter_empty_conv)
  have 3: "sort_key index_rank ?ix = ?ix"
    by (rule sort_key_id_if_sorted) (rule sorted_sort_key)
  show ?thesis
    unfolding EnumerableOwnProperties_def [of obj]
    by (subst EnumerableOwnProperties_def) (simp only: 1 2 3)
qed

lemma distinct_EnumerableOwnProperties:
  "distinct (map fst (EnumerableOwnProperties obj)) \<longleftrightarrow> distinct (map fst obj)"
proof -
  have parts: "distinct (map fst (filter P obj @ filter (\<lambda>p. \<not> P p) obj)) \<longleftrightarrow> distinct (map fst obj)"
    for P :: "jsstring \<times> 'a \<Rightarrow> bool"
    by (induction obj) auto
  have sorting: "distinct (map fst (sort_key index_rank xs)) \<longleftrightarrow> distinct (map fst xs)"
    for xs :: "(jsstring \<times> 'a) list"
    by (simp add: distinct_map)
  have "distinct (map fst (EnumerableOwnProperties obj)) \<longleftrightarrow>
      distinct (map fst (filter (\<lambda>p. array_index (fst p) \<noteq> None) obj @
                         filter (\<lambda>p. \<not> array_index (fst p) \<noteq> None) obj))"
    by (simp add: EnumerableOwnProperties_def sorting del: not_None_eq)
  then show ?thesis
    by (simp only: parts)
qed

lemma insort_key_map_values:
  "insort_key index_rank (k, f k v) (map (\<lambda>(k, v). (k, f k v)) xs) =
     map (\<lambda>(k, v). (k, f k v)) (insort_key index_rank (k, v) xs)"
  by (induction xs) (auto simp: index_rank_def)

lemma EnumerableOwnProperties_map_values:
  "EnumerableOwnProperties (map (\<lambda>(k, v). (k, f k v)) obj) =
     map (\<lambda>(k, v). (k, f k v)) (EnumerableOwnProperties obj)"
proof -
  have s: "sort_key index_rank (map (\<lambda>(k, v). (k, f k v)) xs) =
      map (\<lambda>(k, v). (k, f k v)) (sort_key index_rank xs)" for xs :: "(jsstring \<times> 'b) list"
    by (induction xs) (auto simp: insort_key_map_values)
  have f: "filter P' (map (\<lambda>(k, v). (k, f k v)) obj) = map (\<lambda>(k, v). (k, f k v)) (filter P obj)"
    if "\<And>k v. P' (k, f k v) = P (k, v)" for P P'
    using that by (induction obj) auto
  show ?thesis
    unfolding EnumerableOwnProperties_def
    by (simp add: f [where P = "\<lambda>p. array_index (fst p) \<noteq> None"]
        f [where P = "\<lambda>p. array_index (fst p) = None"] s del: not_None_eq)
qed

lemma Object_keys_named:
  "\<forall>p \<in> set obj. array_index (fst p) = None \<Longrightarrow> Object_keys obj = map fst obj"
  by (simp add: Object_keys_def EnumerableOwnProperties_named)

lemma Object_keys_Nil_iff: "Object_keys obj = [] \<longleftrightarrow> obj = []"
  by (simp add: Object_keys_def EnumerableOwnProperties_Nil_iff)

lemma length_Object_keys: "length (Object_keys obj) = length obj"
  by (simp add: Object_keys_def length_EnumerableOwnProperties)

text \<open>The definitions that evaluate the order of enumeration of given properties.\<close>

lemmas order_eval =
  EnumerableOwnProperties_def array_index_def index_rank_def digits_value_def is_digit_def js_def

lemma EnumerableOwnProperties_document:
  "EnumerableOwnProperties [(js ''type'', a), (js ''required'', b), (js ''properties'', c)] =
     [(js ''type'', a), (js ''required'', b), (js ''properties'', c)]"
  by (simp add: order_eval)

lemma EnumerableOwnProperties_type:
  "EnumerableOwnProperties [(js ''type'', a)] = [(js ''type'', a)]"
  by (simp add: order_eval)

section \<open>Properties of the model-selection handler\<close>

lemma example_constraints: "getModelConstraints (Some example_type) (js ''small'') = Some example_constraints"
  by (simp add: getModelConstraints_def example_type_def js_def example_constraints_def)

text \<open>
  C2 (the code against the claim).  The working configuration has the temperature 0 and
  1000 for \<open>max_tokens\<close>, and the model \<open>small\<close> is selected, for which the node type
  declares the range from 0 to 1 and at most 4096 tokens.  The temperature 0 lies in the
  range, so clamping it gives 0; the handler commits 0.7, because \<open>0 || 0.7\<close> is \<open>0.7\<close>.
  The model and \<open>max_tokens\<close> are committed as the claim says.
\<close>

theorem C2_zero_temperature_is_reset:
  "getModelConstraints (Some example_type) (js ''small'') = Some example_constraints \<and>
   min (max 0 (min_temperature example_constraints)) (max_temperature example_constraints) = 0 \<and>
   changeModel (Some example_type) (js ''n1'') (js ''small'')
       (mount (Some (empty_config\<lparr>llm_info :=
          Some \<lparr>model = Some (js ''large''), llm_info.max_tokens = Some 1000, temperature = Some 0\<rparr>\<rparr>))) =
     (mount (Some (empty_config\<lparr>llm_info :=
          Some \<lparr>model = Some (js ''small''), llm_info.max_tokens = Some 1000, temperature = Some 0.7\<rparr>\<rparr>)),
      [updateNodeConfigOnly (js ''n1'')
         (empty_config\<lparr>llm_info :=
            Some \<lparr>model = Some (js ''small''), llm_info.max_tokens = Some 1000, temperature = Some 0.7\<rparr>\<rparr>)])"
  by (simp add: getModelConstraints_def example_type_def js_def example_constraints_def mount_def
      empty_config_def changeModel_def Let_def spread_llm_info_def num_or_def llm_temperature_def
      llm_max_tokens_def)

text \<open>
  C10.  In the model-selection handler a current value that is set but falsy counts as
  unset: for a model with declared constraints, a current temperature of exactly 0
  commits 0.7 clamped into the model's range, and a current \<open>max_tokens\<close> of 0, like an
  unset one, commits the model's \<open>max_tokens\<close>.
\<close>

theorem C10_falsy_counts_as_unset:
  assumes "getModelConstraints nodeSchema m = Some c"
  shows "\<exists>cfg. snd (changeModel nodeSchema nodeID m st) = [updateNodeConfigOnly nodeID cfg] \<and>
           (llm_temperature (currentNodeConfig st) = Some 0 \<longrightarrow>
              llm_temperature cfg = Some (min (max 0.7 (min_temperature c)) (max_temperature c))) \<and>
           (llm_max_tokens (currentNodeConfig st) = Some 0 \<or> llm_max_tokens (currentNodeConfig st) = None \<longrightarrow>
              llm_max_tokens cfg = Some (ModelConstraints.max_tokens c))"
  using assms
  by (auto simp: changeModel_def Let_def spread_llm_info_def num_or_def llm_temperature_def llm_max_tokens_def split: option.splits)

theorem C10_witness:
  "getModelConstraints (Some example_type) (js ''small'') = Some example_constraints \<and>
   llm_temperature (empty_config\<lparr>llm_info := Some \<lparr>model = None, llm_info.max_tokens = Some 0, temperature = Some 0\<rparr>\<rparr>) = Some 0 \<and>
   snd (changeModel (Some example_type) (js ''n1'') (js ''small'')
       (mount (Some (empty_config\<lparr>llm_info := Some \<lparr>model = None, llm_info.max_tokens = Some 0, temperature = Some 0\<rparr>\<rparr>)))) =
      [updateNodeConfigOnly (js ''n1'')
         (empty_config\<lparr>llm_info := Some \<lparr>model = Some (js ''small''), llm_info.max_tokens = Some 4096, temperature = Some 0.7\<rparr>\<rparr>)]"
  using C10_falsy_counts_as_unset [OF example_constraints, of "js ''n1''"
      "mount (Some (empty_config\<lparr>llm_info := Some \<lparr>model = None, llm_info.max_tokens = Some 0, temperature = Some 0\<rparr>\<rparr>))"]
  by (auto simp: example_constraints mount_def llm_temperature_def llm_max_tokens_def example_constraints_def
      empty_config_def changeModel_def Let_def spread_llm_info_def num_or_def)

text \<open>
  Selecting a model for which the node type declares no constraints, and whose identifier
  is not the name of a member of \<open>Object.prototype\<close>, replaces \<open>llm_info.model\<close> only:
  \<open>temperature\<close> and \<open>max_tokens\<close> stay as they were.
\<close>

theorem X2_changeModel_without_constraints:
  assumes "getModelConstraints nodeSchema m = None" and "m \<notin> set Object_prototype_names"
  shows "changeModel nodeSchema nodeID m st =
           (st\<lparr>currentNodeConfig :=
                 (currentNodeConfig st)\<lparr>llm_info :=
                   Some ((spread_llm_info (llm_info (currentNodeConfig st)))\<lparr>model := Some m\<rparr>)\<rparr>\<rparr>,
            [updateNodeConfigOnly nodeID
               ((currentNodeConfig st)\<lparr>llm_info :=
                  Some ((spread_llm_info (llm_info (currentNodeConfig st)))\<lparr>model := Some m\<rparr>)\<rparr>)]) \<and>
         llm_temperature (currentNodeConfig (fst (changeModel nodeSchema nodeID m st))) =
           llm_temperature (currentNodeConfig st) \<and>
         llm_max_tokens (currentNodeConfig (fst (changeModel nodeSchema nodeID m st))) =
           llm_max_tokens (currentNodeConfig st)"
  using assms(1)
  by (simp add: changeModel_def Let_def llm_temperature_def llm_max_tokens_def spread_llm_info_def
      split: option.splits)

theorem X2_witness:
  "getModelConstraints (Some example_type) (js ''other'') = None \<and>
   js ''other'' \<notin> set Object_prototype_names \<and>
   changeModel (Some example_type) (js ''n1'') (js ''other'')
       (mount (Some (empty_config\<lparr>llm_info := Some \<lparr>model = None, llm_info.max_tokens = Some 8000, temperature = Some 2\<rparr>\<rparr>))) =
     (mount (Some (empty_config\<lparr>llm_info := Some \<lparr>model = Some (js ''other''), llm_info.max_tokens = Some 8000, temperature = Some 2\<rparr>\<rparr>)),
      [updateNodeConfigOnly (js ''n1'')
         (empty_config\<lparr>llm_info := Some \<lparr>model = Some (js ''other''), llm_info.max_tokens = Some 8000, temperature = Some 2\<rparr>\<rparr>)])"
proof -
  have n: "getModelConstraints (Some example_type) (js ''other'') = None"
    by (simp add: getModelConstraints_def example_type_def js_def)
  have o: "js ''other'' \<notin> set Object_prototype_names"
    by (simp add: Object_prototype_names_def js_def)
  from n o X2_changeModel_without_constraints [OF n o, of "js ''n1''"
      "mount (Some (empty_config\<lparr>llm_info := Some \<lparr>model = None, llm_info.max_tokens = Some 8000, temperature = Some 2\<rparr>\<rparr>))"]
  show ?thesis
    by (simp add: mount_def empty_config_def spread_llm_info_def)
qed

text \<open>
  Selecting a model for which the node type declares constraints dispatches exactly one
  \<open>updateNodeConfigOnly\<close>, whose configuration object is the new working copy: the old one
  with the \<open>llm_info\<close> of the selected model, a temperature and a \<open>max_tokens\<close>.  The
  temperature lies in the model's range when that range is not empty; it is the current
  temperature clamped when that is set and not 0, and 0.7 clamped when it is unset.
  \<open>max_tokens\<close> is at most the model's; it is the smaller of the current one and the
  model's when the current one is set and not 0, and the model's when it is unset.
\<close>

theorem X4_changeModel_commit:
  assumes "getModelConstraints nodeSchema m = Some c"
  shows "\<exists>t k.
           changeModel nodeSchema nodeID m st =
             (st\<lparr>currentNodeConfig :=
                   (currentNodeConfig st)\<lparr>llm_info :=
                     Some \<lparr>model = Some m, llm_info.max_tokens = Some k, temperature = Some t\<rparr>\<rparr>\<rparr>,
              [updateNodeConfigOnly nodeID
                 ((currentNodeConfig st)\<lparr>llm_info :=
                    Some \<lparr>model = Some m, llm_info.max_tokens = Some k, temperature = Some t\<rparr>\<rparr>)]) \<and>
           (min_temperature c \<le> max_temperature c \<longrightarrow> min_temperature c \<le> t \<and> t \<le> max_temperature c) \<and>
           k \<le> ModelConstraints.max_tokens c \<and>
           (\<forall>i x. llm_info (currentNodeConfig st) = Some i \<and> temperature i = Some x \<and> x \<noteq> 0 \<longrightarrow>
              t = min (max x (min_temperature c)) (max_temperature c)) \<and>
           (\<forall>i n. llm_info (currentNodeConfig st) = Some i \<and> llm_info.max_tokens i = Some n \<and> n \<noteq> 0 \<longrightarrow>
              k = min n (ModelConstraints.max_tokens c)) \<and>
           (llm_info (currentNodeConfig st) = None \<or>
            (\<exists>i. llm_info (currentNodeConfig st) = Some i \<and> temperature i = None) \<longrightarrow>
              t = min (max 0.7 (min_temperature c)) (max_temperature c)) \<and>
           (llm_info (currentNodeConfig st) = None \<or>
            (\<exists>i. llm_info (currentNodeConfig st) = Some i \<and> llm_info.max_tokens i = None) \<longrightarrow>
              k = ModelConstraints.max_tokens c)"
proof -
  let ?t = "min (max (num_or (llm_temperature (currentNodeConfig st)) 0.7) (min_temperature c)) (max_temperature c)"
  let ?k = "min (num_or (llm_max_tokens (currentNodeConfig st)) (ModelConstraints.max_tokens c))
                (ModelConstraints.max_tokens c)"
  have info: "(spread_llm_info (llm_info (currentNodeConfig st)))
                \<lparr>model := Some m, llm_info.max_tokens := Some ?k, temperature := Some ?t\<rparr> =
              \<lparr>model = Some m, llm_info.max_tokens = Some ?k, temperature = Some ?t\<rparr>"
    by simp
  have commit: "changeModel nodeSchema nodeID m st =
             (st\<lparr>currentNodeConfig :=
                   (currentNodeConfig st)\<lparr>llm_info :=
                     Some \<lparr>model = Some m, llm_info.max_tokens = Some ?k, temperature = Some ?t\<rparr>\<rparr>\<rparr>,
              [updateNodeConfigOnly nodeID
                 ((currentNodeConfig st)\<lparr>llm_info :=
                    Some \<lparr>model = Some m, llm_info.max_tokens = Some ?k, temperature = Some ?t\<rparr>\<rparr>)])"
    using assms info by (simp add: changeModel_def Let_def)
  have range: "min_temperature c \<le> max_temperature c \<longrightarrow> min_temperature c \<le> ?t \<and> ?t \<le> max_temperature c"
    by auto
  have limit: "?k \<le> ModelConstraints.max_tokens c"
    by simp
  have set_t: "?t = min (max x (min_temperature c)) (max_temperature c)"
    if "llm_info (currentNodeConfig st) = Some i" "temperature i = Some x" "x \<noteq> 0" for i x
    using that by (simp add: llm_temperature_def num_or_def)
  have set_k: "?k = min n (ModelConstraints.max_tokens c)"
    if "llm_info (currentNodeConfig st) = Some i" "llm_info.max_tokens i = Some n" "n \<noteq> 0" for i n
    using that by (simp add: llm_max_tokens_def num_or_def)
  have unset_t: "?t = min (max 0.7 (min_temperature c)) (max_temperature c)"
    if "llm_info (currentNodeConfig st) = None \<or>
        (\<exists>i. llm_info (currentNodeConfig st) = Some i \<and> temperature i = None)"
    using that by (auto simp: llm_temperature_def num_or_def)
  have unset_k: "?k = ModelConstraints.max_tokens c"
    if "llm_info (currentNodeConfig st) = None \<or>
        (\<exists>i. llm_info (currentNodeConfig st) = Some i \<and> llm_info.max_tokens i = None)"
    using that by (auto simp: llm_max_tokens_def num_or_def)
  from commit range limit set_t set_k unset_t unset_k show ?thesis
    by blast
qed

theorem X4_witness:
  "getModelConstraints (Some example_type) (js ''small'') = Some example_constraints \<and>
   changeModel (Some example_type) (js ''n1'') (js ''small'')
       (mount (Some (empty_config\<lparr>llm_info := Some \<lparr>model = None, llm_info.max_tokens = Some 100, temperature = Some 0.3\<rparr>\<rparr>))) =
     (mount (Some (empty_config\<lparr>llm_info := Some \<lparr>model = Some (js ''small''), llm_info.max_tokens = Some 100, temperature = Some 0.3\<rparr>\<rparr>)),
      [updateNodeConfigOnly (js ''n1'')
         (empty_config\<lparr>llm_info := Some \<lparr>model = Some (js ''small''), llm_info.max_tokens = Some 100, temperature = Some 0.3\<rparr>\<rparr>)]) \<and>
   changeModel (Some example_type) (js ''n1'') (js ''small'')
       (mount (Some (empty_config\<lparr>llm_info := Some \<lparr>model = None, llm_info.max_tokens = None, temperature = None\<rparr>\<rparr>))) =
     (mount (Some (empty_config\<lparr>llm_info := Some \<lparr>model = Some (js ''small''), llm_info.max_tokens = Some 4096, temperature = Some 0.7\<rparr>\<rparr>)),
      [updateNodeConfigOnly (js ''n1'')
         (empty_config\<lparr>llm_info := Some \<lparr>model = Some (js ''small''), llm_info.max_tokens = Some 4096, temperature = Some 0.7\<rparr>\<rparr>)])"
proof -
  let ?set = "mount (Some (empty_config\<lparr>llm_info := Some \<lparr>model = None, llm_info.max_tokens = Some 100, temperature = Some 0.3\<rparr>\<rparr>))"
  let ?unset = "mount (Some (empty_config\<lparr>llm_info := Some \<lparr>model = None, llm_info.max_tokens = None, temperature = None\<rparr>\<rparr>))"
  have i: "llm_info (currentNodeConfig ?set) =
      Some \<lparr>model = None, llm_info.max_tokens = Some 100, temperature = Some 0.3\<rparr>"
    by (simp add: mount_def empty_config_def)
  have u: "llm_info (currentNodeConfig ?unset) =
      Some \<lparr>model = None, llm_info.max_tokens = None, temperature = None\<rparr>"
    by (simp add: mount_def empty_config_def)
  from X4_changeModel_commit [OF example_constraints, of "js ''n1''" ?set]
  obtain t k where c: "changeModel (Some example_type) (js ''n1'') (js ''small'') ?set =
             (?set\<lparr>currentNodeConfig :=
                   (currentNodeConfig ?set)\<lparr>llm_info :=
                     Some \<lparr>model = Some (js ''small''), llm_info.max_tokens = Some k, temperature = Some t\<rparr>\<rparr>\<rparr>,
              [updateNodeConfigOnly (js ''n1'')
                 ((currentNodeConfig ?set)\<lparr>llm_info :=
                    Some \<lparr>model = Some (js ''small''), llm_info.max_tokens = Some k, temperature = Some t\<rparr>\<rparr>)])"
    and t: "\<forall>i x. llm_info (currentNodeConfig ?set) = Some i \<and> temperature i = Some x \<and> x \<noteq> 0 \<longrightarrow>
              t = min (max x (min_temperature example_constraints)) (max_temperature example_constraints)"
    and k: "\<forall>i n. llm_info (currentNodeConfig ?set) = Some i \<and> llm_info.max_tokens i = Some n \<and> n \<noteq> 0 \<longrightarrow>
              k = min n (ModelConstraints.max_tokens example_constraints)"
    by (elim exE conjE) (rule that, assumption+)
  from t i have "t = min (max 0.3 (min_temperature example_constraints)) (max_temperature example_constraints)"
    by (elim allE [where x = "\<lparr>model = None, llm_info.max_tokens = Some 100, temperature = Some 0.3\<rparr>"]
          allE [where x = "0.3"]) simp
  then have t': "t = 0.3"
    by (simp add: example_constraints_def)
  from k i have "k = min 100 (ModelConstraints.max_tokens example_constraints)"
    by (elim allE [where x = "\<lparr>model = None, llm_info.max_tokens = Some 100, temperature = Some 0.3\<rparr>"]
          allE [where x = "100"]) simp
  then have k': "k = 100"
    by (simp add: example_constraints_def)
  from X4_changeModel_commit [OF example_constraints, of "js ''n1''" ?unset]
  obtain t2 k2 where c2: "changeModel (Some example_type) (js ''n1'') (js ''small'') ?unset =
             (?unset\<lparr>currentNodeConfig :=
                   (currentNodeConfig ?unset)\<lparr>llm_info :=
                     Some \<lparr>model = Some (js ''small''), llm_info.max_tokens = Some k2, temperature = Some t2\<rparr>\<rparr>\<rparr>,
              [updateNodeConfigOnly (js ''n1'')
                 ((currentNodeConfig ?unset)\<lparr>llm_info :=
                    Some \<lparr>model = Some (js ''small''), llm_info.max_tokens = Some k2, temperature = Some t2\<rparr>\<rparr>)])"
    and t2: "llm_info (currentNodeConfig ?unset) = None \<or>
            (\<exists>i. llm_info (currentNodeConfig ?unset) = Some i \<and> temperature i = None) \<longrightarrow>
              t2 = min (max 0.7 (min_temperature example_constraints)) (max_temperature example_constraints)"
    and k2: "llm_info (currentNodeConfig ?unset) = None \<or>
            (\<exists>i. llm_info (currentNodeConfig ?unset) = Some i \<and> llm_info.max_tokens i = None) \<longrightarrow>
              k2 = ModelConstraints.max_tokens example_constraints"
    by (elim exE conjE) (rule that, assumption+)
  from t2 u have t2': "t2 = 0.7"
    by (simp add: example_constraints_def)
  from k2 u have k2': "k2 = 4096"
    by (simp add: example_constraints_def)
  from c c2 show ?thesis
    unfolding t' k' t2' k2'
    by (simp add: example_constraints mount_def empty_config_def)
qed

section \<open>Properties of the title handler\<close>

lemma elapse_showTitleError: "showTitleError (fst (elapse now st)) = showTitleError st"
  by (simp add: elapse_def split: option.splits)

lemma handle_showTitleError:
  "\<not> showTitleError st \<Longrightarrow> \<not> showTitleError (fst (handle conv nodeSchema nodeID now ev st))"
  by (cases ev)
     (simp_all add: handle_def changeModel_def handleInputChange_def debouncedDispatch_def
        updateOutputSchema_def updateOutputJsonSchema_def handleTitleChangeComplete_def
        closeTitleAlert_def Let_def split: option.splits)

lemma run_showTitleError:
  "\<not> showTitleError st \<Longrightarrow> \<not> showTitleError (fst (run conv nodeSchema nodeID evs st))"
proof (induction evs arbitrary: st)
  case Nil
  then show ?case by simp
next
  case (Cons e evs)
  obtain now ev where e: "e = (now, ev)" by (cases e)
  obtain st1 a1 where s1: "elapse now st = (st1, a1)" by (cases "elapse now st")
  obtain st2 a2 where s2: "handle conv nodeSchema nodeID now ev st1 = (st2, a2)"
    by (cases "handle conv nodeSchema nodeID now ev st1")
  from s1 Cons.prems have "\<not> showTitleError st1"
    using elapse_showTitleError [of now st] by simp
  with s2 have "\<not> showTitleError st2"
    using handle_showTitleError [of st1 conv nodeSchema nodeID now ev] by simp
  obtain st3 a3 where s3: "run conv nodeSchema nodeID evs st2 = (st3, a3)"
    by (cases "run conv nodeSchema nodeID evs st2")
  from Cons.IH [OF \<open>\<not> showTitleError st2\<close>] show ?case
    by (simp add: e s1 s2 s3)
qed

text \<open>
  C4 (the code against the claim).  Completing a title edit with the value \<open>my title\<close>,
  which contains white space, dispatches \<open>updateNodeTitle\<close> with the converted title and
  leaves the state as it was: nothing is rejected and the alert is not shown.  No session
  whatever shows the alert, because \<open>showTitleError\<close> starts as \<open>false\<close> and no handler sets
  it to \<open>true\<close>.
\<close>

theorem C4_whitespace_title_no_alert:
  "run conv nodeSchema nodeID [(now, TitleCompleted (js ''my title''))] (mount cfg) =
     (mount cfg, [updateNodeTitle nodeID (conv (js ''my title''))]) \<and>
   \<not> title_alert_shown (mount cfg) \<and>
   (\<forall>evs. \<not> title_alert_shown (fst (run conv nodeSchema nodeID evs (mount cfg))))"
proof -
  have "\<not> showTitleError (mount cfg)" by (simp add: mount_def)
  then have "\<forall>evs. \<not> title_alert_shown (fst (run conv nodeSchema nodeID evs (mount cfg)))"
    by (simp add: title_alert_shown_def run_showTitleError)
  moreover have "run conv nodeSchema nodeID [(now, TitleCompleted (js ''my title''))] (mount cfg) =
     (mount cfg, [updateNodeTitle nodeID (conv (js ''my title''))])"
    by (simp add: handle_def handleTitleChangeComplete_def elapse_def mount_def)
  moreover have "\<not> title_alert_shown (mount cfg)"
    by (simp add: title_alert_shown_def mount_def)
  ultimately show ?thesis by blast
qed

section \<open>Properties of the debounced dispatch\<close>

lemma run_slider_edits:
  assumes "tvs \<noteq> []" and "rapid (map fst tvs)"
    and "case pendingDispatch st of None \<Rightarrow> True | Some (due, a) \<Rightarrow> fst (hd tvs) < due"
  shows "run conv nodeSchema nodeID (slider_edits put tvs) st =
           (st\<lparr>currentNodeConfig := foldl (\<lambda>c (t, v). put v c) (currentNodeConfig st) tvs,
               pendingDispatch := Some (fst (last tvs) + 300, nodeID,
                                        foldl (\<lambda>c (t, v). put v c) (currentNodeConfig st) tvs)\<rparr>, [])"
  using assms
proof (induction tvs arbitrary: st)
  case Nil
  then show ?case by simp
next
  case (Cons e tvs)
  obtain t v where e: "e = (t, v)" by (cases e)
  from Cons.prems(3) have el: "elapse t st = (st, [])"
    by (auto simp: elapse_def e split: option.splits)
  let ?st2 = "st\<lparr>currentNodeConfig := put v (currentNodeConfig st),
                 pendingDispatch := Some (t + 300, nodeID, put v (currentNodeConfig st))\<rparr>"
  have h: "handle conv nodeSchema nodeID t (FieldEdited (put v) True) st = (?st2, [])"
    by (simp add: handle_def handleInputChange_def debouncedDispatch_def Let_def)
  show ?case
  proof (cases tvs)
    case Nil
    then show ?thesis by (simp add: slider_edits_def e el h)
  next
    case (Cons e' tvs')
    obtain t' v' where e': "e' = (t', v')" by (cases e')
    from Cons.prems(2) have "t' < t + 300" and r: "rapid (map fst tvs)"
      by (simp_all add: e Cons e')
    then have p: "case pendingDispatch ?st2 of None \<Rightarrow> True | Some (due, a) \<Rightarrow> fst (hd tvs) < due"
      by (simp add: Cons e')
    have ne: "tvs \<noteq> []" by (simp add: Cons)
    from Cons.IH [OF ne r p] show ?thesis
      by (simp add: slider_edits_def e el h Cons)
  qed
qed

lemma foldl_put_last:
  assumes "\<And>a b c. put a (put b c) = put a c" and "tvs \<noteq> []"
  shows "foldl (\<lambda>c (t, v). put v c) c0 tvs = put (snd (last tvs)) c0"
  using assms(2)
proof (induction tvs arbitrary: c0)
  case Nil
  then show ?case by simp
next
  case (Cons e tvs)
  then show ?case by (cases tvs) (auto simp: assms(1) split: prod.splits)
qed

text \<open>
  C5.  Let slider edits of one field follow each other at times that are less than 300 ms
  apart, starting with no dispatch pending.  Then the whole session dispatches exactly
  one action once 300 ms have passed since the last edit, an \<open>updateNodeConfigOnly\<close> of
  the configuration with the last value, and nothing before: every edit re-arms the
  timer, which is left due 300 ms after the last one.  An edit that does not come from a
  slider dispatches at once, whatever the time and the timer.
\<close>

theorem C5_slider_edits_debounced:
  assumes "pendingDispatch st = None" and "tvs \<noteq> []" and "rapid (map fst tvs)"
    and "\<And>a b c. put a (put b c) = put a c"
  shows "(\<forall>final. fst (last tvs) + 300 \<le> final \<longrightarrow>
            snd (session conv nodeSchema nodeID (slider_edits put tvs) final st) =
              [updateNodeConfigOnly nodeID (put (snd (last tvs)) (currentNodeConfig st))]) \<and>
         (\<forall>final. final < fst (last tvs) + 300 \<longrightarrow>
            snd (session conv nodeSchema nodeID (slider_edits put tvs) final st) = []) \<and>
         pendingDispatch (fst (run conv nodeSchema nodeID (slider_edits put tvs) st)) =
           Some (fst (last tvs) + 300, nodeID, put (snd (last tvs)) (currentNodeConfig st)) \<and>
         (\<forall>now assign s.
            handleInputChange nodeID now assign False s =
              (s\<lparr>currentNodeConfig := assign (currentNodeConfig s)\<rparr>,
               [updateNodeConfigOnly nodeID (assign (currentNodeConfig s))]))"
proof -
  from assms(1) have p: "case pendingDispatch st of None \<Rightarrow> True | Some (due, a) \<Rightarrow> fst (hd tvs) < due"
    by simp
  note r = run_slider_edits [OF assms(2,3) p, of conv nodeSchema nodeID put]
    and f = foldl_put_last [of put, OF assms(4) assms(2)]
  show ?thesis
    by (simp add: session_def r f elapse_def handleInputChange_def Let_def)
qed

theorem C5_witness:
  "pendingDispatch (mount None) = None \<and>
   rapid (map fst [(0, 0.1), (120, 0.2), (400, 0.9 :: real)]) \<and>
   snd (session id None (js ''n1'') (slider_edits set_temperature [(0, 0.1), (120, 0.2), (400, 0.9)]) 700 (mount None)) =
     [updateNodeConfigOnly (js ''n1'')
        (empty_config\<lparr>llm_info := Some \<lparr>model = None, llm_info.max_tokens = None, temperature = Some 0.9\<rparr>\<rparr>)] \<and>
   snd (session id None (js ''n1'') (slider_edits set_temperature [(0, 0.1), (120, 0.2), (400, 0.9)]) 699 (mount None)) = []"
proof -
  have pp: "\<And>a b c. set_temperature a (set_temperature b c) = set_temperature a c"
    by (simp add: set_temperature_def spread_llm_info_def)
  have p: "pendingDispatch (mount None) = None" by (simp add: mount_def)
  have r: "rapid (map fst [(0, 0.1), (120, 0.2), (400, 0.9 :: real)])" by simp
  from C5_slider_edits_debounced [where put = set_temperature and st = "mount None"
      and tvs = "[(0, 0.1), (120, 0.2), (400, 0.9)]" and conv = id and nodeSchema = None
      and nodeID = "js ''n1''", OF p _ r pp]
  show ?thesis
    by (simp add: mount_def set_temperature_def spread_llm_info_def empty_config_def)
qed

section \<open>Properties of the node factory\<close>

lemma find_SomeD: "List.find P xs = Some x \<Longrightarrow> P x \<and> x \<in> set xs"
  by (auto simp: find_Some_iff)

lemma find_type_None:
  "find_type nodeTypes t = None \<longleftrightarrow> (\<forall>(cat, types) \<in> set nodeTypes. \<forall>nt \<in> set types. name nt \<noteq> t)"
  by (induction nodeTypes t rule: find_type.induct)
     (auto simp: find_None_iff split: option.splits dest: find_SomeD)

lemma find_type_Some:
  "find_type nodeTypes t = Some nt \<Longrightarrow> name nt = t \<and> (\<exists>(cat, types) \<in> set nodeTypes. nt \<in> set types)"
  by (induction nodeTypes t rule: find_type.induct)
     (auto split: option.splits dest: find_SomeD)

text \<open>
  C7.  \<open>createNode\<close> returns \<open>null\<close> exactly when no category of the registry holds a
  type of the given name.  When it returns a node and a configuration, the configuration
  is the default configuration of a registered type of that name with \<open>title\<close> replaced by
  the given id, and the node carries the id, the type name and the id as its title.
  \<open>createNode\<close> is a function of its arguments: it has no access to a store and
  dispatches nothing.
\<close>

theorem C7_createNode:
  "(createNode nodeTypes t i pos parent dims = None \<longleftrightarrow>
      (\<forall>(cat, types) \<in> set nodeTypes. \<forall>nt \<in> set types. name nt \<noteq> t)) \<and>
   (\<forall>node c. createNode nodeTypes t i pos parent dims = Some (node, c) \<longrightarrow>
      (\<exists>nt. (\<exists>(cat, types) \<in> set nodeTypes. nt \<in> set types) \<and> name nt = t \<and>
            c = (config nt)\<lparr>title := Some i\<rparr> \<and>
            id' node = i \<and> type' node = t \<and> node_data.title (data node) = i))"
proof -
  have "createNode nodeTypes t i pos parent dims = None \<longleftrightarrow> find_type nodeTypes t = None"
    by (simp add: createNode_def split: option.splits)
  moreover have "\<exists>nt. (\<exists>(cat, types) \<in> set nodeTypes. nt \<in> set types) \<and> name nt = t \<and>
            c = (config nt)\<lparr>title := Some i\<rparr> \<and> id' node = i \<and> type' node = t \<and>
            node_data.title (data node) = i"
    if "createNode nodeTypes t i pos parent dims = Some (node, c)" for node c
  proof -
    from that obtain nt where nt: "find_type nodeTypes t = Some nt"
      by (auto simp: createNode_def split: option.splits)
    with that have "c = (config nt)\<lparr>title := Some i\<rparr> \<and> id' node = i \<and> type' node = name nt \<and>
        node_data.title (data node) = i"
      by (auto simp: createNode_def cloneDeep_def)
    with find_type_Some [OF nt] show ?thesis by blast
  qed
  ultimately show ?thesis
    by (simp only: find_type_None) blast
qed

theorem C7_witness:
  "createNode [(js ''AI'', [example_type])] (js ''Unknown'') (js ''n1'') (0, 0) None None = None \<and>
   createNode [(js ''AI'', [example_type])] (js ''SingleLLMCallNode'') (js ''n1'') (0, 0) None None =
     Some (\<lparr>id' = js ''n1'', type' = js ''SingleLLMCallNode'', position = (0, 0), measured = None,
            parentId = None, expandParent = None, extent = None,
            data = \<lparr>node_data.title = js ''n1'', node_data.acronym = js ''LLM'',
                    node_data.color = js ''#fff'', node_data.logo = None, node_data.category = None\<rparr>,
            width = None, height = None\<rparr>,
           empty_config\<lparr>title := Some (js ''n1'')\<rparr>)"
  using C7_createNode [of "[(js ''AI'', [example_type])]" "js ''Unknown''" "js ''n1''" "(0, 0)" None None]
    C7_createNode [of "[(js ''AI'', [example_type])]" "js ''SingleLLMCallNode''" "js ''n1''" "(0, 0)" None None]
  by (simp add: createNode_def example_type_def js_def cloneDeep_def if_parent_def)

section \<open>Properties of the upstream-field collector\<close>

lemma foldl_append_concat:
  "(\<And>acc x. F acc x = acc @ G x) \<Longrightarrow> foldl F acc xs = acc @ concat (map G xs)"
  by (induction xs arbitrary: acc) simp_all

lemma sorted_index_keys:
  assumes "\<forall>p \<in> set xs. array_index (fst p) \<noteq> None"
  shows "sorted (map (\<lambda>k. the (array_index k)) (map fst (sort_key index_rank xs)))"
proof -
  have "map (\<lambda>k. the (array_index k)) (map fst (sort_key index_rank xs)) =
      map index_rank (sort_key index_rank xs)"
    using assms by (auto simp: index_rank_def)
  then show ?thesis
    by (simp only: sorted_sort_key)
qed

text \<open>
  C6, amended.  \<open>collectIncomingSchema\<close> returns, for the edges into the node in the order
  of the edge list, and for each such edge whose source node exists and has a committed
  configuration with an \<open>output_schema\<close>, one string per field of that schema: the
  namespace, a point and the field name.  The namespace is the title of the source's
  configuration when it has one that is not empty, and the id of the source node
  otherwise.  The fields of a source come in the order of \<open>Object.keys\<close>: first the names
  that are array indices, in ascending numeric order, then the other names in the order
  of their declaration; a schema without such names gives its fields in the order of
  their declaration.  Two edges from sources titled \<open>A\<close> (with the schema \<open>{x: "string"}\<close>)
  and \<open>B\<close> (with \<open>{y: "number"}\<close>) give \<open>["A.x", "B.y"]\<close>.
\<close>

theorem C6_collectIncomingSchema:
  "collectIncomingSchema nodes edges allNodeConfigs nodeID =
     concat (map (\<lambda>edge.
                    case List.find (\<lambda>n. id' n = source edge) nodes of
                      None \<Rightarrow> []
                    | Some n \<Rightarrow>
                        (case allNodeConfigs (id' n) of
                           None \<Rightarrow> []
                         | Some c \<Rightarrow>
                             (case output_schema c of
                                None \<Rightarrow> []
                              | Some schema \<Rightarrow>
                                  map (\<lambda>field.
                                         (case title c of
                                            None \<Rightarrow> id' n
                                          | Some s \<Rightarrow> if s = [] then id' n else s) @ js ''.'' @ field)
                                    (Object_keys schema))))
                 (filter (\<lambda>edge. target edge = nodeID) edges)) \<and>
   (\<exists>indices.
      Object_keys obj = indices @ filter (\<lambda>k. array_index k = None) (map fst obj) \<and>
      set indices = {k \<in> fst ` set obj. array_index k \<noteq> None} \<and>
      length indices = length (filter (\<lambda>k. array_index k \<noteq> None) (map fst obj)) \<and>
      sorted (map (\<lambda>k. the (array_index k)) indices)) \<and>
   ((\<forall>k \<in> fst ` set obj. array_index k = None) \<longrightarrow> Object_keys obj = map fst obj) \<and>
   collectIncomingSchema
       [example_node (js ''n1''), example_node (js ''n2''), example_node (js ''n3'')]
       [\<lparr>source = js ''n1'', target = js ''n3''\<rparr>, \<lparr>source = js ''n2'', target = js ''n3''\<rparr>]
       (map_of [(js ''n1'', empty_config\<lparr>title := Some (js ''A''),
                                          output_schema := Some [(js ''x'', JString (js ''string''))]\<rparr>),
                (js ''n2'', empty_config\<lparr>title := Some (js ''B''),
                                          output_schema := Some [(js ''y'', JString (js ''number''))]\<rparr>)])
       (js ''n3'') =
     [js ''A.x'', js ''B.y'']"
proof -
  have general: "collectIncomingSchema nodes edges allNodeConfigs nodeID =
     concat (map (\<lambda>edge.
                    case List.find (\<lambda>n. id' n = source edge) nodes of
                      None \<Rightarrow> []
                    | Some n \<Rightarrow>
                        (case allNodeConfigs (id' n) of
                           None \<Rightarrow> []
                         | Some c \<Rightarrow>
                             (case output_schema c of
                                None \<Rightarrow> []
                              | Some schema \<Rightarrow>
                                  map (\<lambda>field.
                                         (case title c of
                                            None \<Rightarrow> id' n
                                          | Some s \<Rightarrow> if s = [] then id' n else s) @ js ''.'' @ field)
                                    (Object_keys schema))))
                 (filter (\<lambda>edge. target edge = nodeID) edges))"
    unfolding collectIncomingSchema_def Let_def
    by (subst foldl_append_concat
          [where G = "\<lambda>node. case node of
                None \<Rightarrow> []
              | Some n \<Rightarrow>
                  (case allNodeConfigs (id' n) of
                     None \<Rightarrow> []
                   | Some c \<Rightarrow>
                       (case output_schema c of
                          None \<Rightarrow> []
                        | Some schema \<Rightarrow>
                            map (\<lambda>field.
                                         (case title c of
                                            None \<Rightarrow> id' n
                                          | Some s \<Rightarrow> if s = [] then id' n else s) @ js ''.'' @ field)
                                    (Object_keys schema)))"])
       (auto simp: str_or_def comp_def split: option.splits intro!: arg_cong [where f = concat])
  let ?indices = "map fst (sort_key index_rank (filter (\<lambda>p. array_index (fst p) \<noteq> None) obj))"
  have named: "map fst (filter (\<lambda>p. array_index (fst p) = None) obj) =
      filter (\<lambda>k. array_index k = None) (map fst obj)"
    by (simp add: filter_map comp_def)
  have 1: "Object_keys obj = ?indices @ filter (\<lambda>k. array_index k = None) (map fst obj)"
    by (simp only: Object_keys_def EnumerableOwnProperties_def map_append named)
  have 2: "set ?indices = {k \<in> fst ` set obj. array_index k \<noteq> None}"
    by auto
  have 3: "length ?indices = length (filter (\<lambda>k. array_index k \<noteq> None) (map fst obj))"
    by (simp add: filter_map comp_def del: not_None_eq)
  have 4: "sorted (map (\<lambda>k. the (array_index k)) ?indices)"
    by (rule sorted_index_keys) simp
  have order: "\<exists>indices.
      Object_keys obj = indices @ filter (\<lambda>k. array_index k = None) (map fst obj) \<and>
      set indices = {k \<in> fst ` set obj. array_index k \<noteq> None} \<and>
      length indices = length (filter (\<lambda>k. array_index k \<noteq> None) (map fst obj)) \<and>
      sorted (map (\<lambda>k. the (array_index k)) indices)"
    using 1 2 3 4 by blast
  have declared: "Object_keys obj = map fst obj" if "\<forall>k \<in> fst ` set obj. array_index k = None"
    using that by (intro Object_keys_named) simp
  have example: "collectIncomingSchema
       [example_node (js ''n1''), example_node (js ''n2''), example_node (js ''n3'')]
       [\<lparr>source = js ''n1'', target = js ''n3''\<rparr>, \<lparr>source = js ''n2'', target = js ''n3''\<rparr>]
       (map_of [(js ''n1'', empty_config\<lparr>title := Some (js ''A''),
                                          output_schema := Some [(js ''x'', JString (js ''string''))]\<rparr>),
                (js ''n2'', empty_config\<lparr>title := Some (js ''B''),
                                          output_schema := Some [(js ''y'', JString (js ''number''))]\<rparr>)])
       (js ''n3'') =
     [js ''A.x'', js ''B.y'']"
    by (simp add: collectIncomingSchema_def example_node_def empty_config_def str_or_def
        Object_keys_def order_eval)
  from general order declared example show ?thesis by blast
qed

theorem C6_witness:
  "array_index (js ''x'') = None \<and>
   Object_keys [(js ''x'', JString (js ''string''))] = [js ''x''] \<and>
   collectIncomingSchema
       [example_node (js ''n1''), example_node (js ''n2'')]
       [\<lparr>source = js ''n1'', target = js ''n2''\<rparr>]
       (map_of [(js ''n1'', empty_config\<lparr>title := Some (js ''A''),
                   output_schema := Some [(js ''b'', JString (js ''string'')),
                                          (js ''10'', JString (js ''number'')),
                                          (js ''2'', JString (js ''boolean''))]\<rparr>)])
       (js ''n2'') =
     [js ''A.2'', js ''A.10'', js ''A.b'']"
  using C6_collectIncomingSchema [of "[example_node (js ''n1''), example_node (js ''n2'')]"
      "[\<lparr>source = js ''n1'', target = js ''n2''\<rparr>]"
      "map_of [(js ''n1'', empty_config\<lparr>title := Some (js ''A''),
                   output_schema := Some [(js ''b'', JString (js ''string'')),
                                          (js ''10'', JString (js ''number'')),
                                          (js ''2'', JString (js ''boolean''))]\<rparr>)]"
      "js ''n2''" "[(js ''x'', JString (js ''string''))]"]
  by (simp add: example_node_def empty_config_def Object_keys_def order_eval)

text \<open>
  The claim as stated fails on a source titled \<open>A\<close> whose schema declares the field \<open>b\<close>
  and then the field \<open>1\<close>: the declaration order would give \<open>["A.b", "A.1"]\<close>, and the
  function returns \<open>["A.1", "A.b"]\<close>.
\<close>

theorem C6_counterexample:
  "collectIncomingSchema
       [example_node (js ''n1''), example_node (js ''n2'')]
       [\<lparr>source = js ''n1'', target = js ''n2''\<rparr>]
       (map_of [(js ''n1'', empty_config\<lparr>title := Some (js ''A''),
                   output_schema := Some [(js ''b'', JString (js ''string'')),
                                          (js ''1'', JString (js ''number''))]\<rparr>)])
       (js ''n2'') =
     [js ''A.1'', js ''A.b''] \<and>
   collectIncomingSchema
       [example_node (js ''n1''), example_node (js ''n2'')]
       [\<lparr>source = js ''n1'', target = js ''n2''\<rparr>]
       (map_of [(js ''n1'', empty_config\<lparr>title := Some (js ''A''),
                   output_schema := Some [(js ''b'', JString (js ''string'')),
                                          (js ''1'', JString (js ''number''))]\<rparr>)])
       (js ''n2'') \<noteq>
     [js ''A.b'', js ''A.1'']"
  by (simp add: collectIncomingSchema_def example_node_def empty_config_def str_or_def
      Object_keys_def order_eval)

section \<open>Properties of the JSON functions\<close>

text \<open>
  Printing a plain value and parsing the text gives the value back.  The proof follows
  the text: a quoted string is scanned back, the text of a value has the tokens of the
  value, and the parser builds the value from its tokens.
\<close>

subsection \<open>String literals\<close>

lemma hex_digit_hex_char: "d < 16 \<Longrightarrow> hex_digit (hex_char d) = Some d"
  by (auto simp: hex_digit_def hex_char_def)

lemma hex_sum: "(c::nat) = 16 * x + e \<Longrightarrow> x = 16 * y + d \<Longrightarrow> y = 16 * a + b \<Longrightarrow>
  ((a * 16 + b) * 16 + d) * 16 + e = c"
  by simp

lemma hex_value: 
  assumes "c < 65536"
  shows "((c div 4096 mod 16 * 16 + c div 256 mod 16) * 16 + c div 16 mod 16) * 16 + c mod 16 = (c::nat)"
proof -
  have 1: "c = 16 * (c div 16) + c mod 16" by simp
  have 2: "c div 16 = 16 * (c div 256) + c div 16 mod 16"
    using div_mult_mod_eq [of "c div 16" 16] by (simp add: div_mult2_eq [symmetric] mult.commute)
  have 3: "c div 256 = 16 * (c div 4096) + c div 256 mod 16"
    using div_mult_mod_eq [of "c div 256" 16] by (simp add: div_mult2_eq [symmetric] mult.commute)
  from assms have 4: "c div 4096 mod 16 = c div 4096"
    by (simp add: less_mult_imp_div_less)
  show ?thesis
    unfolding 4 by (rule hex_sum [OF 1 2 3])
qed

lemma scan_u:
  "hex_digit h1 = Some d1 \<Longrightarrow> hex_digit h2 = Some d2 \<Longrightarrow> hex_digit h3 = Some d3 \<Longrightarrow>
   hex_digit h4 = Some d4 \<Longrightarrow>
   scan_string (backslash # ch CHR ''u'' # h1 # h2 # h3 # h4 # rest) =
     map_option (\<lambda>(s, n). ((((d1 * 16 + d2) * 16 + d3) * 16 + d4) # s, n + 6)) (scan_string rest)"
  by simp

lemma scan_unicode_escape:
  assumes "c < 65536"
  shows "scan_string (unicode_escape c @ rest) =
           map_option (\<lambda>(s, n). (c # s, n + 6)) (scan_string rest)"
proof -
  have d: "c div 4096 mod 16 < 16" "c div 256 mod 16 < 16" "c div 16 mod 16 < 16" "c mod 16 < 16"
    by simp_all
  have "scan_string (unicode_escape c @ rest) =
      scan_string (backslash # ch CHR ''u'' # hex_char (c div 4096 mod 16) # hex_char (c div 256 mod 16) #
        hex_char (c div 16 mod 16) # hex_char (c mod 16) # rest)"
    by (simp only: unicode_escape_def append_Cons append_Nil)
  also have "\<dots> = map_option (\<lambda>(s, n).
      ((((c div 4096 mod 16 * 16 + c div 256 mod 16) * 16 + c div 16 mod 16) * 16 + c mod 16) # s, n + 6))
      (scan_string rest)"
    by (rule scan_u) (rule hex_digit_hex_char, rule d)+
  finally show ?thesis
    by (simp only: hex_value [OF assms])
qed

lemma scan_raw:
  "32 \<le> c \<Longrightarrow> c \<noteq> dquote \<Longrightarrow> c \<noteq> backslash \<Longrightarrow>
   scan_string (c # rest) = map_option (\<lambda>(s, n). (c # s, n + 1)) (scan_string rest)"
  by simp

lemma scan_short:
  "unescape e = Some u \<Longrightarrow> e \<noteq> ch CHR ''u'' \<Longrightarrow>
   scan_string (backslash # e # rest) = map_option (\<lambda>(s, n). (u # s, n + 2)) (scan_string rest)"
  by simp

lemma scan_quote_unit:
  "scan_string (quote_unit c @ rest) =
     map_option (\<lambda>(s, n). (c # s, n + length (quote_unit c))) (scan_string rest)"
proof (cases "c = 8 \<or> c = 9 \<or> c = 10 \<or> c = 12 \<or> c = 13 \<or> c = dquote \<or> c = backslash")
  case True
  then show ?thesis
    by (elim disjE) (simp_all add: quote_unit_def scan_short unescape_def del: scan_string.simps)
next
  case False
  show ?thesis
  proof (cases "c < 32 \<or> is_high_surrogate c \<or> is_low_surrogate c")
    case True
    then have "c < 65536" by (auto simp: is_high_surrogate_def is_low_surrogate_def)
    then have "scan_string (unicode_escape c @ rest) =
           map_option (\<lambda>(s, n). (c # s, n + 6)) (scan_string rest)"
      by (rule scan_unicode_escape)
    moreover from True False have "quote_unit c = unicode_escape c"
      by (simp add: quote_unit_def)
    moreover have "length (unicode_escape c) = 6"
      by (simp add: unicode_escape_def)
    ultimately show ?thesis by (simp del: scan_string.simps)
  next
    case raw: False
    with False have "quote_unit c = [c]" by (simp add: quote_unit_def)
    moreover from raw False have "32 \<le> c" "c \<noteq> dquote" "c \<noteq> backslash" by simp_all
    ultimately show ?thesis
      by (simp add: scan_raw del: scan_string.simps)
  qed
qed

lemma scan_quote_units:
  "scan_string (quote_units s @ dquote # rest) = Some (s, length (quote_units s) + 1)"
proof (induction s rule: quote_units.induct)
  case 1
  then show ?case by simp
next
  case (2 c)
  have "scan_string (dquote # rest) = Some ([], 1)" by simp
  then show ?case
    by (simp add: scan_quote_unit del: scan_string.simps)
next
  case (3 c d s)
  show ?case
  proof (cases "is_high_surrogate c \<and> is_low_surrogate d")
    case True
    with 3 have ih: "scan_string (quote_units s @ dquote # rest) = Some (s, length (quote_units s) + 1)"
      by blast
    from True have q: "quote_units (c # d # s) = c # d # quote_units s" by simp
    from True have c: "32 \<le> c" "c \<noteq> dquote" "c \<noteq> backslash" and d: "32 \<le> d" "d \<noteq> dquote" "d \<noteq> backslash"
      by (auto simp: is_high_surrogate_def is_low_surrogate_def)
    show ?thesis
      unfolding q by (simp add: scan_raw [OF c] scan_raw [OF d] ih del: scan_string.simps)
  next
    case False
    with 3 have ih: "scan_string (quote_units (d # s) @ dquote # rest) =
        Some (d # s, length (quote_units (d # s)) + 1)"
      by blast
    have q: "quote_units (c # d # s) = quote_unit c @ quote_units (d # s)"
      using False by (cases "is_high_surrogate c"; cases "is_low_surrogate d") simp_all
    show ?thesis
      unfolding q by (simp add: scan_quote_unit ih del: scan_string.simps quote_units.simps)
  qed
qed

lemma scan_token_string:
  "scan_token (QuoteJSONString s @ rest) = Some (TString s, length (QuoteJSONString s))"
  by (simp add: scan_token_def QuoteJSONString_def scan_quote_units del: scan_string.simps)

subsection \<open>The tokens of a printed value\<close>

lemma tokenize_skip: "tokenize (length xs) (xs @ rest) = tokenize 0 rest"
  by (induction xs) simp_all

lemma tokenize_ws: "list_all is_json_whitespace ws \<Longrightarrow> tokenize 0 (ws @ rest) = tokenize 0 rest"
  by (induction ws) simp_all

lemma tokenize_token:
  assumes "scan_token (c # cs @ rest) = Some (t, Suc (length cs))" and "\<not> is_json_whitespace c"
  shows "tokenize 0 (c # cs @ rest) = map_option ((#) t) (tokenize 0 rest)"
  using assms by (simp add: tokenize_skip)

lemma tokenize_char:
  assumes "scan_token (c # rest) = Some (t, 1)" and "\<not> is_json_whitespace c"
  shows "tokenize 0 (c # rest) = map_option ((#) t) (tokenize 0 rest)"
  using tokenize_token [of c "[]" rest t] assms by simp

lemma tokenize_string:
  "tokenize 0 (QuoteJSONString s @ rest) = map_option ((#) (TString s)) (tokenize 0 rest)"
proof -
  have q: "QuoteJSONString s = dquote # (quote_units s @ [dquote])"
    by (simp add: QuoteJSONString_def)
  have a: "scan_token (dquote # (quote_units s @ [dquote]) @ rest) =
      Some (TString s, Suc (length (quote_units s @ [dquote])))"
    using scan_token_string [of s rest] by (simp add: q)
  have b: "\<not> is_json_whitespace dquote" by (simp add: is_json_whitespace_def)
  show ?thesis
    unfolding q append_Cons by (rule tokenize_token [OF a b])
qed

lemma tokenize_literals:
  "tokenize 0 (js ''null'' @ rest) = map_option ((#) TNull) (tokenize 0 rest)"
  "tokenize 0 (js ''true'' @ rest) = map_option ((#) TTrue) (tokenize 0 rest)"
  "tokenize 0 (js ''false'' @ rest) = map_option ((#) TFalse) (tokenize 0 rest)"
  by (simp_all add: js_def scan_token_def is_json_whitespace_def)

lemma tokenize_punct:
  "tokenize 0 (js ''['' @ rest) = map_option ((#) TLBracket) (tokenize 0 rest)"
  "tokenize 0 (js '']'' @ rest) = map_option ((#) TRBracket) (tokenize 0 rest)"
  "tokenize 0 (js ''{'' @ rest) = map_option ((#) TLBrace) (tokenize 0 rest)"
  "tokenize 0 (js ''}'' @ rest) = map_option ((#) TRBrace) (tokenize 0 rest)"
  "tokenize 0 (js '','' @ rest) = map_option ((#) TComma) (tokenize 0 rest)"
  "tokenize 0 (js '':'' @ rest) = map_option ((#) TColon) (tokenize 0 rest)"
  by (simp_all add: js_def scan_token_def is_json_whitespace_def)

lemma wrap_nonempty:
  "partial \<noteq> [] \<Longrightarrow>
   wrap l r gap indent partial =
     l @ (if gap = [] then [] else [10] @ indent @ gap) @
     join (js '','' @ (if gap = [] then [] else [10] @ indent @ gap)) partial @
     (if gap = [] then [] else [10] @ indent) @ r"
  by (simp add: wrap_def)

lemma tokenize_join:
  assumes "\<And>x rest. x \<in> set xs \<Longrightarrow> tokenize 0 (f x @ rest) = map_option ((@) (g x)) (tokenize 0 rest)"
    and "list_all is_json_whitespace pre" and "xs \<noteq> []"
  shows "tokenize 0 (join (js '','' @ pre) (map f xs) @ rest) =
           map_option ((@) (join [TComma] (map g xs))) (tokenize 0 rest)"
  using assms(1,3)
proof (induction xs)
  case Nil
  then show ?case by simp
next
  case (Cons x xs)
  show ?case
  proof (cases xs)
    case Nil
    with Cons.prems(1) [of x rest] show ?thesis by simp
  next
    case (Cons y ys)
    have ih: "tokenize 0 (join (js '','' @ pre) (map f xs) @ rest) =
           map_option ((@) (join [TComma] (map g xs))) (tokenize 0 rest)"
      using Cons.IH Cons.prems(1) Cons by simp
    have "tokenize 0 (join (js '','' @ pre) (map f (x # xs)) @ rest) =
        tokenize 0 (f x @ (js '','' @ (pre @ (join (js '','' @ pre) (map f xs) @ rest))))"
      by (simp add: Cons)
    also have "\<dots> = map_option ((@) (g x))
        (map_option ((#) TComma) (map_option ((@) (join [TComma] (map g xs))) (tokenize 0 rest)))"
      using Cons.prems(1) [of x] by (simp only: tokenize_punct tokenize_ws [OF assms(2)] ih list.set_intros)
    also have "\<dots> = map_option ((@) (join [TComma] (map g (x # xs)))) (tokenize 0 rest)"
      by (cases "tokenize 0 rest") (simp_all add: Cons)
    finally show ?thesis .
  qed
qed

lemma tokenize_wrap:
  assumes "\<And>x rest. x \<in> set xs \<Longrightarrow> tokenize 0 (f x @ rest) = map_option ((@) (g x)) (tokenize 0 rest)"
    and gap: "list_all is_json_whitespace gap" and indent: "list_all is_json_whitespace indent"
    and l: "\<And>rest. tokenize 0 (l @ rest) = map_option ((#) topen) (tokenize 0 rest)"
    and r: "\<And>rest. tokenize 0 (r @ rest) = map_option ((#) tclose) (tokenize 0 rest)"
  shows "tokenize 0 (wrap l r gap indent (map f xs) @ rest) =
           map_option ((@) ([topen] @ join [TComma] (map g xs) @ [tclose])) (tokenize 0 rest)"
proof (cases xs)
  case Nil
  then show ?thesis by (cases "tokenize 0 rest") (simp_all add: wrap_def l r)
next
  case (Cons y ys)
  then have ne: "xs \<noteq> []" "map f xs \<noteq> []" by simp_all
  let ?pre = "if gap = [] then [] else [10] @ indent @ gap"
  let ?post = "if gap = [] then [] else [10] @ indent"
  have pre: "list_all is_json_whitespace ?pre" and post: "list_all is_json_whitespace ?post"
    using gap indent by (simp_all add: is_json_whitespace_def)
  have "tokenize 0 (wrap l r gap indent (map f xs) @ rest) =
      tokenize 0 (l @ (?pre @ (join (js '','' @ ?pre) (map f xs) @ (?post @ (r @ rest)))))"
    by (simp only: wrap_nonempty [OF ne(2)] append_assoc)
  also have "\<dots> = map_option ((#) topen) (map_option ((@) (join [TComma] (map g xs)))
      (map_option ((#) tclose) (tokenize 0 rest)))"
    by (simp only: l tokenize_ws [OF pre] tokenize_ws [OF post] r
        tokenize_join [where f = f and g = g, OF assms(1) pre ne(1)])
  also have "\<dots> = map_option ((@) ([topen] @ join [TComma] (map g xs) @ [tclose])) (tokenize 0 rest)"
    by (cases "tokenize 0 rest") simp_all
  finally show ?thesis .
qed

lemma tokenize_value:
  "plain v \<Longrightarrow> list_all is_json_whitespace gap \<Longrightarrow> list_all is_json_whitespace indent \<Longrightarrow>
   tokenize 0 (SerializeJSONProperty gap indent v @ rest) =
     map_option ((@) (tokens_of v)) (tokenize 0 rest)"
proof (induction v arbitrary: indent rest)
  case JNull
  then show ?case by (cases "tokenize 0 rest") (simp_all add: tokenize_literals)
next
  case (JBool b)
  then show ?case by (cases "tokenize 0 rest") (simp_all add: tokenize_literals)
next
  case (JNumber n)
  then show ?case by simp
next
  case (JString s)
  then show ?case by (cases "tokenize 0 rest") (simp_all add: tokenize_string)
next
  case (JArray xs)
  have ind: "list_all is_json_whitespace (indent @ gap)"
    using JArray.prems by simp
  have elems: "tokenize 0 (SerializeJSONProperty gap (indent @ gap) x @ rest) =
      map_option ((@) (tokens_of x)) (tokenize 0 rest)" if "x \<in> set xs" for x rest
    using JArray.IH [OF that _ JArray.prems(2) ind] that JArray.prems(1)
    by (simp add: list_all_iff)
  show ?case
    using tokenize_wrap [where f = "SerializeJSONProperty gap (indent @ gap)" and g = tokens_of
        and xs = xs and l = "js ''[''" and r = "js '']''" and topen = TLBracket and tclose = TRBracket
        and rest = rest,
        OF elems JArray.prems(2,3) tokenize_punct(1) tokenize_punct(2)]
    by (cases "tokenize 0 rest") simp_all
next
  case (JObject ps)
  have ind: "list_all is_json_whitespace (indent @ gap)"
    using JObject.prems by simp
  let ?f = "\<lambda>(k, v). QuoteJSONString k @ js '':'' @ (if gap = [] then [] else js '' '') @
                        SerializeJSONProperty gap (indent @ gap) v"
  let ?g = "\<lambda>(k, v). [TString k, TColon] @ tokens_of v"
  from JObject.prems(1) have order: "EnumerableOwnProperties ps = ps"
    by simp
  have sp: "list_all is_json_whitespace (if gap = [] then [] else js '' '')"
    by (simp add: js_def is_json_whitespace_def)
  have members: "tokenize 0 (?f p @ rest) = map_option ((@) (?g p)) (tokenize 0 rest)"
    if "p \<in> set ps" for p rest
  proof -
    obtain k v where p: "p = (k, v)" by (cases p)
    from that p JObject.prems(1) have pl: "plain v"
      by (auto simp: list_all_iff)
    from that p have "v \<in> Basic_BNFs.snds p" by simp
    from JObject.IH [OF that this pl JObject.prems(2) ind]
    have ih: "tokenize 0 (SerializeJSONProperty gap (indent @ gap) v @ rest) =
        map_option ((@) (tokens_of v)) (tokenize 0 rest)" for rest .
    have "tokenize 0 (?f p @ rest) =
        tokenize 0 (QuoteJSONString k @ (js '':'' @ ((if gap = [] then [] else js '' '') @
          (SerializeJSONProperty gap (indent @ gap) v @ rest))))"
      by (simp add: p)
    also have "\<dots> = map_option ((#) (TString k)) (map_option ((#) TColon)
        (map_option ((@) (tokens_of v)) (tokenize 0 rest)))"
      by (simp only: tokenize_string tokenize_punct tokenize_ws [OF sp] ih)
    also have "\<dots> = map_option ((@) (?g p)) (tokenize 0 rest)"
      by (cases "tokenize 0 rest") (simp_all add: p)
    finally show ?thesis .
  qed
  show ?case
    using tokenize_wrap [where f = ?f and g = ?g
        and xs = ps and l = "js ''{''" and r = "js ''}''" and topen = TLBrace and tclose = TRBrace
        and rest = rest,
        OF members JObject.prems(2,3) tokenize_punct(3) tokenize_punct(4)]
    by (cases "tokenize 0 rest") (simp_all add: order)
qed

subsection \<open>Parsing the tokens of a value\<close>

lemma define_property_fresh:
  "k \<notin> fst ` set props \<Longrightarrow> define_property props k v = props @ [(k, v)]"
  by (induction props) auto

lemma parse_tokens_Cons:
  "parse_tokens s (t # ts) = (case parse_step s t of None \<Rightarrow> None | Some s' \<Rightarrow> parse_tokens s' ts)"
  by simp

lemma parse_elements:
  assumes "\<And>x st e rest. x \<in> set xs \<Longrightarrow> e = WantValue \<or> e = WantValueOrClose \<Longrightarrow>
      parse_tokens (st, e) (tokens_of x @ rest) =
        (case deliver x st of None \<Rightarrow> None | Some s' \<Rightarrow> parse_tokens s' rest)"
    and "xs \<noteq> []" and "e = WantValue \<or> e = WantValueOrClose"
  shows "parse_tokens (InArray acc # st, e) (join [TComma] (map tokens_of xs) @ TRBracket # rest) =
           (case deliver (JArray (acc @ xs)) st of None \<Rightarrow> None | Some s' \<Rightarrow> parse_tokens s' rest)"
  using assms
proof (induction xs arbitrary: acc e)
  case Nil
  then show ?case by simp
next
  case (Cons x xs)
  have x: "parse_tokens (InArray acc # st, e) (tokens_of x @ r) =
      parse_tokens (InArray (acc @ [x]) # st, WantCommaOrClose) r" for r
    using Cons.prems(1) [of x e "InArray acc # st" r] Cons.prems(3)
    by (simp add: deliver_def)
  show ?case
  proof (cases xs)
    case Nil
    then show ?thesis
      by (simp add: x parse_step_def close_frame_def)
  next
    case (Cons y ys)
    have ih: "parse_tokens (InArray (acc @ [x]) # st, WantValue)
        (join [TComma] (map tokens_of xs) @ TRBracket # rest) =
        (case deliver (JArray ((acc @ [x]) @ xs)) st of None \<Rightarrow> None | Some s' \<Rightarrow> parse_tokens s' rest)"
      using Cons.IH [of WantValue "acc @ [x]"] Cons.prems(1) Cons by simp
    have "parse_tokens (InArray acc # st, e) (join [TComma] (map tokens_of (x # xs)) @ TRBracket # rest) =
        parse_tokens (InArray acc # st, e)
          (tokens_of x @ (TComma # (join [TComma] (map tokens_of xs) @ TRBracket # rest)))"
      by (simp add: Cons)
    also have "\<dots> = parse_tokens (InArray (acc @ [x]) # st, WantValue)
        (join [TComma] (map tokens_of xs) @ TRBracket # rest)"
      by (simp only: x parse_tokens_Cons) (simp add: parse_step_def)
    also note ih
    finally show ?thesis
      by simp
  qed
qed

lemma parse_members:
  assumes "\<And>k v st e rest. (k, v) \<in> set ps \<Longrightarrow> e = WantValue \<or> e = WantValueOrClose \<Longrightarrow>
      parse_tokens (st, e) (tokens_of v @ rest) =
        (case deliver v st of None \<Rightarrow> None | Some s' \<Rightarrow> parse_tokens s' rest)"
    and "ps \<noteq> []" and "e = WantKey \<or> e = WantKeyOrClose" and "distinct (map fst (acc @ ps))"
  shows "parse_tokens (InObject acc None # st, e)
           (join [TComma] (map (\<lambda>(k, v). [TString k, TColon] @ tokens_of v) ps) @ TRBrace # rest) =
           (case deliver (JObject (acc @ ps)) st of None \<Rightarrow> None | Some s' \<Rightarrow> parse_tokens s' rest)"
  using assms
proof (induction ps arbitrary: acc e)
  case Nil
  then show ?case by simp
next
  case step: (Cons p ps)
  obtain k v where p: "p = (k, v)" by (cases p)
  from step.prems(4) p have fresh: "k \<notin> fst ` set acc"
    by auto
  have m: "parse_tokens (InObject acc None # st, e) ([TString k, TColon] @ tokens_of v @ r) =
      parse_tokens (InObject (acc @ [(k, v)]) None # st, WantCommaOrClose) r" for r
  proof -
    have "parse_tokens (InObject acc None # st, e) ([TString k, TColon] @ tokens_of v @ r) =
        parse_tokens (InObject acc (Some k) # st, WantValue) (tokens_of v @ r)"
      using step.prems(3) by (auto simp: parse_step_def expect_key_def)
    also have "\<dots> = parse_tokens (InObject (acc @ [(k, v)]) None # st, WantCommaOrClose) r"
      using step.prems(1) [of k v WantValue "InObject acc (Some k) # st" r] p
      by (simp add: deliver_def define_property_fresh [OF fresh])
    finally show ?thesis .
  qed
  show ?case
  proof (cases ps)
    case Nil
    have "parse_tokens (InObject acc None # st, e)
           (join [TComma] (map (\<lambda>(k, v). [TString k, TColon] @ tokens_of v) (p # ps)) @ TRBrace # rest) =
        parse_tokens (InObject acc None # st, e) ([TString k, TColon] @ tokens_of v @ (TRBrace # rest))"
      by (simp add: Nil p)
    also have "\<dots> = parse_tokens (InObject (acc @ [(k, v)]) None # st, WantCommaOrClose) (TRBrace # rest)"
      by (rule m)
    finally show ?thesis
      by (simp add: Nil p parse_step_def close_frame_def)
  next
    case inner: (Cons q qs)
    have d: "distinct (map fst ((acc @ [(k, v)]) @ ps))"
      using step.prems(4) p by simp
    have ih: "parse_tokens (InObject (acc @ [(k, v)]) None # st, WantKey)
        (join [TComma] (map (\<lambda>(k, v). [TString k, TColon] @ tokens_of v) ps) @ TRBrace # rest) =
        (case deliver (JObject ((acc @ [(k, v)]) @ ps)) st of None \<Rightarrow> None
         | Some s' \<Rightarrow> parse_tokens s' rest)"
    proof (rule step.IH)
      fix k' v' e' st' rest'
      assume "(k', v') \<in> set ps" and "e' = WantValue \<or> e' = WantValueOrClose"
      then show "parse_tokens (st', e') (tokens_of v' @ rest') =
          (case deliver v' st' of None \<Rightarrow> None | Some s' \<Rightarrow> parse_tokens s' rest')"
        using step.prems(1) [of k' v' e' st' rest'] by simp
    next
      show "ps \<noteq> []" by (simp add: inner)
    next
      show "WantKey = WantKey \<or> WantKey = WantKeyOrClose" by simp
    next
      show "distinct (map fst ((acc @ [(k, v)]) @ ps))" by (rule d)
    qed
    have "parse_tokens (InObject acc None # st, e)
           (join [TComma] (map (\<lambda>(k, v). [TString k, TColon] @ tokens_of v) (p # ps)) @ TRBrace # rest) =
        parse_tokens (InObject acc None # st, e)
          ([TString k, TColon] @ tokens_of v @
            (TComma # (join [TComma] (map (\<lambda>(k, v). [TString k, TColon] @ tokens_of v) ps) @ TRBrace # rest)))"
      by (simp add: inner p)
    also have "\<dots> = parse_tokens (InObject (acc @ [(k, v)]) None # st, WantCommaOrClose)
        (TComma # (join [TComma] (map (\<lambda>(k, v). [TString k, TColon] @ tokens_of v) ps) @ TRBrace # rest))"
      by (rule m)
    also have "\<dots> = parse_tokens (InObject (acc @ [(k, v)]) None # st, WantKey)
        (join [TComma] (map (\<lambda>(k, v). [TString k, TColon] @ tokens_of v) ps) @ TRBrace # rest)"
      by (simp add: parse_step_def)
    also note ih
    finally show ?thesis
      by (simp add: p)
  qed
qed

lemma parse_value:
  "plain v \<Longrightarrow> e = WantValue \<or> e = WantValueOrClose \<Longrightarrow>
   parse_tokens (st, e) (tokens_of v @ rest) =
     (case deliver v st of None \<Rightarrow> None | Some s' \<Rightarrow> parse_tokens s' rest)"
proof (induction v arbitrary: st e rest)
  case JNull
  then show ?case by (auto simp: parse_step_def open_value_def)
next
  case (JBool b)
  then show ?case by (auto simp: parse_step_def open_value_def)
next
  case (JNumber n)
  then show ?case by simp
next
  case (JString s)
  then show ?case by (auto simp: parse_step_def open_value_def)
next
  case (JArray xs)
  have elems: "parse_tokens (st, e) (tokens_of x @ rest) =
        (case deliver x st of None \<Rightarrow> None | Some s' \<Rightarrow> parse_tokens s' rest)"
    if "x \<in> set xs" "e = WantValue \<or> e = WantValueOrClose" for x st e rest
    using JArray.IH [OF that(1) _ that(2)] that(1) JArray.prems(1) by (simp add: list_all_iff)
  have op: "parse_tokens (st, e) (TLBracket # r) = parse_tokens (InArray [] # st, WantValueOrClose) r" for r
    using JArray.prems(2) by (auto simp: parse_step_def open_value_def)
  show ?case
  proof (cases xs)
    case Nil
    then show ?thesis
      by (simp add: op del: parse_tokens.simps) (simp add: parse_step_def close_frame_def)
  next
    case (Cons y ys)
    then have ne: "xs \<noteq> []" by simp
    have "parse_tokens (st, e) (tokens_of (JArray xs) @ rest) =
        parse_tokens (InArray [] # st, WantValueOrClose)
          (join [TComma] (map tokens_of xs) @ TRBracket # rest)"
      by (simp add: op del: parse_tokens.simps)
    also have "\<dots> = (case deliver (JArray ([] @ xs)) st of None \<Rightarrow> None
        | Some s' \<Rightarrow> parse_tokens s' rest)"
      by (rule parse_elements [OF elems ne]) simp_all
    finally show ?thesis by simp
  qed
next
  case (JObject ps)
  have members: "parse_tokens (st, e) (tokens_of v @ rest) =
        (case deliver v st of None \<Rightarrow> None | Some s' \<Rightarrow> parse_tokens s' rest)"
    if "(k, v) \<in> set ps" "e = WantValue \<or> e = WantValueOrClose" for k v st e rest
  proof -
    from that(1) have "v \<in> Basic_BNFs.snds (k, v)" by simp
    moreover from that(1) JObject.prems(1) have "plain v" by (auto simp: list_all_iff)
    ultimately show ?thesis
      using JObject.IH [OF that(1) _ _ that(2)] by blast
  qed
  have op: "parse_tokens (st, e) (TLBrace # r) = parse_tokens (InObject [] None # st, WantKeyOrClose) r" for r
    using JObject.prems(2) by (auto simp: parse_step_def open_value_def)
  show ?case
  proof (cases ps)
    case Nil
    then show ?thesis
      by (simp add: op del: parse_tokens.simps) (simp add: parse_step_def close_frame_def)
  next
    case (Cons q qs)
    then have ne: "ps \<noteq> []" by simp
    from JObject.prems(1) have d: "distinct (map fst ([] @ ps))" by simp
    have "parse_tokens (st, e) (tokens_of (JObject ps) @ rest) =
        parse_tokens (InObject [] None # st, WantKeyOrClose)
          (join [TComma] (map (\<lambda>(k, v). [TString k, TColon] @ tokens_of v) ps) @ TRBrace # rest)"
      by (simp add: op del: parse_tokens.simps)
    also have "\<dots> = (case deliver (JObject ([] @ ps)) st of None \<Rightarrow> None
        | Some s' \<Rightarrow> parse_tokens s' rest)"
      by (rule parse_members [OF members ne _ d]) simp_all
    finally show ?thesis by simp
  qed
qed

lemma JSON_parse_printed:
  assumes "plain v" and "list_all is_json_whitespace gap"
  shows "JSON_parse (SerializeJSONProperty gap [] v) = Some v"
proof -
  have "tokenize 0 (SerializeJSONProperty gap [] v @ []) = map_option ((@) (tokens_of v)) (tokenize 0 [])"
    by (rule tokenize_value [OF assms]) simp
  then have t: "tokenize 0 (SerializeJSONProperty gap [] v) = Some (tokens_of v)"
    by simp
  have "parse_tokens ([], WantValue) (tokens_of v @ []) =
      (case deliver v [] of None \<Rightarrow> None | Some s' \<Rightarrow> parse_tokens s' [])"
    by (rule parse_value [OF assms(1)]) simp
  then have "parse_tokens ([], WantValue) (tokens_of v) = Some v"
    by (simp add: deliver_def)
  with t show ?thesis
    by (simp add: JSON_parse_def)
qed

lemma JSON_parse_stringify: "plain v \<Longrightarrow> JSON_parse (JSON_stringify v space) = Some v"
  unfolding JSON_stringify_def
  by (rule JSON_parse_printed) (simp_all add: list_all_iff is_json_whitespace_def)

section \<open>Properties of the schema translator\<close>

text \<open>The definitions that evaluate the parser and the printer on a given text or value.\<close>

lemmas json_eval =
  extractSchemaFromJsonSchema_def extract_try_def parsed_document_def schema_of_parsed_def JSON_parse_def trim_def
  is_js_whitespace_def cleanup_def replace1_def js_def scan_token_def is_json_whitespace_def
  parse_step_def open_value_def close_frame_def deliver_def expect_key_def get_property_def
  truthy_def Object_entries_def typeof_object_def set_property_def Object_keys_def
  EnumerableOwnProperties_def array_index_def index_rank_def digits_value_def
  number_literal_def number_fraction_def number_exponent_def is_digit_def hex_digit_def
  unescape_def is_number_char_def zero_literal_def

lemma replicate_two: "replicate 2 x = [x, x]"
  by (simp add: numeral_2_eq_2)

lemmas stringify_eval =
  generateJsonSchemaFromSchema_def JSON_stringify_def wrap_def QuoteJSONString_def quote_unit_def
  is_high_surrogate_def is_low_surrogate_def unicode_escape_def hex_char_def replicate_two

subsection \<open>\<open>generateJsonSchemaFromSchema\<close>\<close>

lemma add_properties_None:
  "add_properties schema properties = None \<longleftrightarrow> (\<exists>(k, t) \<in> set schema. k = [] \<or> t = [])"
  by (induction schema properties rule: add_properties.induct) auto

text \<open>
  C8.  \<open>generateJsonSchemaFromSchema\<close> returns \<open>null\<close> for the empty mapping and for every
  mapping with an empty field name or an empty type.  For any other mapping it returns
  \<open>JSON.stringify(doc, null, 2)\<close> of a document \<open>doc\<close> whose \<open>type\<close> is \<open>object\<close>, whose
  \<open>required\<close> lists all the field names as \<open>Object.keys\<close> gives them and which has an
  object \<open>properties\<close>; the text puts every member on a line of its own, the members of
  the document indented by two spaces and the required names by four.
\<close>

theorem C8_generateJsonSchemaFromSchema:
  "generateJsonSchemaFromSchema [] = None \<and>
   ((\<exists>(k, t) \<in> set schema. k = [] \<or> t = []) \<longrightarrow> generateJsonSchemaFromSchema schema = None) \<and>
   (schema \<noteq> [] \<and> (\<forall>(k, t) \<in> set schema. k \<noteq> [] \<and> t \<noteq> []) \<longrightarrow>
      (\<exists>properties.
         generateJsonSchemaFromSchema schema =
           Some (JSON_stringify
                   (JObject [(js ''type'', JString (js ''object'')),
                             (js ''required'', JArray (map JString (Object_keys schema))),
                             (js ''properties'', JObject properties)])
                   2) \<and>
         JSON_stringify
             (JObject [(js ''type'', JString (js ''object'')),
                       (js ''required'', JArray (map JString (Object_keys schema))),
                       (js ''properties'', JObject properties)])
             2 =
           js ''{'' @ [10] @
           js ''  \"type\": \"object\",'' @ [10] @
           js ''  \"required\": ['' @ [10] @
           js ''    '' @ join (js '','' @ [10] @ js ''    '') (map QuoteJSONString (Object_keys schema)) @ [10] @
           js ''  ],'' @ [10] @
           js ''  \"properties\": '' @ SerializeJSONProperty (js ''  '') (js ''  '') (JObject properties) @ [10] @
           js ''}''))"
proof -
  have 1: "generateJsonSchemaFromSchema [] = None"
    by (simp add: generateJsonSchemaFromSchema_def Object_keys_Nil_iff)
  have 2: "generateJsonSchemaFromSchema schema = None" if "\<exists>(k, t) \<in> set schema. k = [] \<or> t = []"
    using that add_properties_None [of "EnumerableOwnProperties schema" "[]"]
    by (auto simp: generateJsonSchemaFromSchema_def set_EnumerableOwnProperties)
  have 3: "\<exists>properties.
         generateJsonSchemaFromSchema schema =
           Some (JSON_stringify
                   (JObject [(js ''type'', JString (js ''object'')),
                             (js ''required'', JArray (map JString (Object_keys schema))),
                             (js ''properties'', JObject properties)])
                   2) \<and>
         JSON_stringify
             (JObject [(js ''type'', JString (js ''object'')),
                       (js ''required'', JArray (map JString (Object_keys schema))),
                       (js ''properties'', JObject properties)])
             2 =
           js ''{'' @ [10] @
           js ''  \"type\": \"object\",'' @ [10] @
           js ''  \"required\": ['' @ [10] @
           js ''    '' @ join (js '','' @ [10] @ js ''    '') (map QuoteJSONString (Object_keys schema)) @ [10] @
           js ''  ],'' @ [10] @
           js ''  \"properties\": '' @ SerializeJSONProperty (js ''  '') (js ''  '') (JObject properties) @ [10] @
           js ''}''"
    if ne: "schema \<noteq> []" and ok: "\<forall>(k, t) \<in> set schema. k \<noteq> [] \<and> t \<noteq> []"
  proof -
    from ok add_properties_None [of "EnumerableOwnProperties schema" "[]"]
    obtain properties where p: "add_properties (EnumerableOwnProperties schema) [] = Some properties"
      by (cases "add_properties (EnumerableOwnProperties schema) []")
         (auto simp: set_EnumerableOwnProperties)
    have g: "generateJsonSchemaFromSchema schema =
           Some (JSON_stringify
                   (JObject [(js ''type'', JString (js ''object'')),
                             (js ''required'', JArray (map JString (Object_keys schema))),
                             (js ''properties'', JObject properties)])
                   2)"
      using ne by (simp add: generateJsonSchemaFromSchema_def p Object_keys_Nil_iff)
    have q: "SerializeJSONProperty gap ind \<circ> JString = QuoteJSONString" for gap ind
      by (simp add: fun_eq_iff)
    have k: "Object_keys schema \<noteq> []"
      using ne by (simp add: Object_keys_Nil_iff)
    have s: "JSON_stringify
             (JObject [(js ''type'', JString (js ''object'')),
                       (js ''required'', JArray (map JString (Object_keys schema))),
                       (js ''properties'', JObject properties)])
             2 =
           js ''{'' @ [10] @
           js ''  \"type\": \"object\",'' @ [10] @
           js ''  \"required\": ['' @ [10] @
           js ''    '' @ join (js '','' @ [10] @ js ''    '') (map QuoteJSONString (Object_keys schema)) @ [10] @
           js ''  ],'' @ [10] @
           js ''  \"properties\": '' @ SerializeJSONProperty (js ''  '') (js ''  '') (JObject properties) @ [10] @
           js ''}''"
      unfolding JSON_stringify_def
      apply (subst SerializeJSONProperty.simps(6))
      apply (simp only: EnumerableOwnProperties_document)
      using k q
      apply (simp add: replicate_two wrap_def js_def QuoteJSONString_def quote_unit_def
          is_high_surrogate_def is_low_surrogate_def del: SerializeJSONProperty.simps(6))
      done
    from g s show ?thesis by blast
  qed
  from 1 2 3 show ?thesis by blast
qed

theorem C8_witness:
  "generateJsonSchemaFromSchema [(js ''a'', [])] = None \<and>
   generateJsonSchemaFromSchema [(js ''a'', js ''string''), (js ''b'', js ''number'')] =
     Some (js ''{'' @ [10] @
           js ''  \"type\": \"object\",'' @ [10] @
           js ''  \"required\": ['' @ [10] @
           js ''    \"a\",'' @ [10] @
           js ''    \"b\"'' @ [10] @
           js ''  ],'' @ [10] @
           js ''  \"properties\": {'' @ [10] @
           js ''    \"a\": {'' @ [10] @
           js ''      \"type\": \"string\"'' @ [10] @
           js ''    },'' @ [10] @
           js ''    \"b\": {'' @ [10] @
           js ''      \"type\": \"number\"'' @ [10] @
           js ''    }'' @ [10] @
           js ''  }'' @ [10] @
           js ''}'')"
  using C8_generateJsonSchemaFromSchema [of "[(js ''a'', [])]"]
    C8_generateJsonSchemaFromSchema [of "[(js ''a'', js ''string''), (js ''b'', js ''number'')]"]
  by (simp add: stringify_eval json_eval)

text \<open>
  C1 (the code against the claim).  For the mapping with the one field \<open>__proto__\<close> of type
  \<open>string\<close>, a non-empty mapping of non-empty strings, the generated text requires the
  field but has no property for it: the assignment \<open>jsonSchema.properties[key] = { type }\<close>
  does not create a property of that name.  Extracting the simple schema from that text
  gives \<open>null\<close>, not the mapping.
\<close>

theorem C1_proto_key_is_lost:
  "generateJsonSchemaFromSchema [(js ''__proto__'', js ''string'')] =
     Some (js ''{'' @ [10] @
           js ''  \"type\": \"object\",'' @ [10] @
           js ''  \"required\": ['' @ [10] @
           js ''    \"__proto__\"'' @ [10] @
           js ''  ],'' @ [10] @
           js ''  \"properties\": {}'' @ [10] @
           js ''}'') \<and>
   extractSchemaFromJsonSchema
     (js ''{'' @ [10] @
      js ''  \"type\": \"object\",'' @ [10] @
      js ''  \"required\": ['' @ [10] @
      js ''    \"__proto__\"'' @ [10] @
      js ''  ],'' @ [10] @
      js ''  \"properties\": {}'' @ [10] @
      js ''}'') = (None, [])"
  by (simp add: stringify_eval json_eval)

subsection \<open>The round trip\<close>

lemma add_properties_fresh:
  "distinct (map fst schema) \<Longrightarrow> fst ` set properties \<inter> fst ` set schema = {} \<Longrightarrow>
   \<forall>(k, t) \<in> set schema. k \<noteq> [] \<and> t \<noteq> [] \<and> k \<noteq> js ''__proto__'' \<Longrightarrow>
   add_properties schema properties =
     Some (properties @ map (\<lambda>(k, t). (k, JObject [(js ''type'', JString t)])) schema)"
proof (induction schema properties rule: add_properties.induct)
  case (1 properties)
  then show ?case by simp
next
  case (2 key type entries properties)
  from "2.prems" have fresh: "key \<notin> fst ` set properties" by auto
  from "2.prems" have ok: "key \<noteq> []" "type \<noteq> []" "key \<noteq> js ''__proto__''" by auto
  have sp: "set_property properties key (JObject [(js ''type'', JString type)]) =
      properties @ [(key, JObject [(js ''type'', JString type)])]"
    using ok(3) by (simp add: set_property_def define_property_fresh [OF fresh])
  have "add_properties entries (properties @ [(key, JObject [(js ''type'', JString type)])]) =
      Some ((properties @ [(key, JObject [(js ''type'', JString type)])]) @
            map (\<lambda>(k, t). (k, JObject [(js ''type'', JString t)])) entries)"
    using "2.IH" "2.prems" ok sp by auto
  then show ?case
    using ok sp by simp
qed

lemma collect_types_fresh:
  "distinct (map fst schema) \<Longrightarrow> fst ` set acc \<inter> fst ` set schema = {} \<Longrightarrow>
   \<forall>(k, t) \<in> set schema. k \<noteq> js ''__proto__'' \<Longrightarrow>
   collect_types (map (\<lambda>(k, t). (k, JObject [(js ''type'', JString t)])) schema) acc =
     Inr (acc @ map (\<lambda>(k, t). (k, JString t)) schema)"
proof (induction schema arbitrary: acc)
  case Nil
  then show ?case by simp
next
  case (Cons p schema)
  obtain k t where p: "p = (k, t)" by (cases p)
  from Cons.prems p have fresh: "k \<notin> fst ` set acc" and ok: "k \<noteq> js ''__proto__''" by auto
  have sp: "set_property acc k (JString t) = acc @ [(k, JString t)]"
    using ok by (simp add: set_property_def define_property_fresh [OF fresh])
  have "collect_types (map (\<lambda>(k, t). (k, JObject [(js ''type'', JString t)])) schema) (acc @ [(k, JString t)]) =
     Inr ((acc @ [(k, JString t)]) @ map (\<lambda>(k, t). (k, JString t)) schema)"
    using Cons.prems p by (intro Cons.IH) auto
  then show ?case
    by (simp add: p typeof_object_def get_property_def sp)
qed

lemma trim_id:
  assumes "s \<noteq> []" and "\<not> is_js_whitespace (hd s)" and "\<not> is_js_whitespace (last s)"
  shows "trim s = s"
proof -
  from assms(1,2) have 1: "dropWhile is_js_whitespace s = s"
    by (cases s) simp_all
  from assms(1,3) have 2: "dropWhile is_js_whitespace (rev s) = rev s"
    by (cases "rev s") (simp_all add: last_rev [symmetric] hd_rev)
  show ?thesis by (simp add: trim_def 1 2)
qed

lemma trim_wrap:
  "partial \<noteq> [] \<Longrightarrow> trim (wrap (js ''{'') (js ''}'') gap indent partial) =
     wrap (js ''{'') (js ''}'') gap indent partial"
  by (rule trim_id) (simp_all add: wrap_nonempty js_def is_js_whitespace_def)

lemma trim_object:
  "ps \<noteq> [] \<Longrightarrow>
   trim (SerializeJSONProperty gap indent (JObject ps)) = SerializeJSONProperty gap indent (JObject ps)"
  by (simp only: SerializeJSONProperty.simps) (rule trim_wrap, simp add: EnumerableOwnProperties_Nil_iff)

lemma plain_document:
  "plain p \<Longrightarrow>
   plain (JObject [(js ''type'', JString a), (js ''required'', JArray (map JString ks)),
                   (js ''properties'', p)])"
  by (simp add: EnumerableOwnProperties_document) (simp add: js_def list_all_iff)

text \<open>
  For every non-empty mapping with distinct, non-empty field names other than \<open>__proto__\<close>
  and non-empty types, extracting the simple schema from the generated text gives the
  mapping back and logs nothing: the result has the fields of the mapping in the order of
  their enumeration, each with its type as a JSON string, and so is the same mapping.
\<close>

theorem X1_schema_round_trip:
  assumes "schema \<noteq> []" and "distinct (map fst schema)"
    and "\<forall>(k, t) \<in> set schema. k \<noteq> [] \<and> t \<noteq> [] \<and> k \<noteq> js ''__proto__''"
  shows "\<exists>text r. generateJsonSchemaFromSchema schema = Some text \<and>
           extractSchemaFromJsonSchema text = (Some r, []) \<and>
           r = map (\<lambda>(k, t). (k, JString t)) (EnumerableOwnProperties schema) \<and>
           map_of r = map_of (map (\<lambda>(k, t). (k, JString t)) schema)"
proof -
  let ?entries = "EnumerableOwnProperties schema"
  let ?props = "map (\<lambda>(k, t). (k, JObject [(js ''type'', JString t)])) ?entries"
  let ?doc = "JObject [(js ''type'', JString (js ''object'')),
                       (js ''required'', JArray (map JString (Object_keys schema))),
                       (js ''properties'', JObject ?props)]"
  let ?text = "JSON_stringify ?doc 2"
  let ?r = "map (\<lambda>(k, t). (k, JString t)) ?entries"
  have d: "distinct (map fst ?entries)"
    using assms(2) by (simp only: distinct_EnumerableOwnProperties)
  have ok: "\<forall>(k, t) \<in> set ?entries. k \<noteq> [] \<and> t \<noteq> [] \<and> k \<noteq> js ''__proto__''"
    using assms(3) by (simp only: set_EnumerableOwnProperties)
  have ne: "?entries \<noteq> []"
    using assms(1) by (simp add: EnumerableOwnProperties_Nil_iff)
  have ap: "add_properties ?entries [] = Some ?props"
    using add_properties_fresh [OF d, of "[]"] ok by simp
  have gen: "generateJsonSchemaFromSchema schema = Some ?text"
    using assms(1) by (simp add: generateJsonSchemaFromSchema_def ap Object_keys_Nil_iff)
  have keys: "map fst ?props = map fst ?entries"
    by (simp add: case_prod_unfold comp_def)
  have order: "EnumerableOwnProperties ?props = ?props"
    by (simp only: EnumerableOwnProperties_map_values EnumerableOwnProperties_idem)
  have "distinct (map fst ?props)"
    unfolding keys by (rule d)
  moreover have "list_all (\<lambda>(k, v). plain v) ?props"
    by (simp add: list_all_iff case_prod_unfold EnumerableOwnProperties_type)
  ultimately have "plain (JObject ?props)"
    using order by (simp only: plain.simps simp_thms)
  then have plain: "plain ?doc"
    by (rule plain_document)
  have parse: "JSON_parse ?text = Some ?doc"
    by (rule JSON_parse_stringify [OF plain])
  have trim: "trim ?text = ?text"
    unfolding JSON_stringify_def by (rule trim_object) simp
  have doc: "parsed_document ?text = Some ?doc"
    by (simp only: parsed_document_def trim parse option.case)
  have props: "get_property ?doc (js ''properties'') = Inr (Some (JObject ?props))"
    by (simp add: get_property_def js_def)
  have ct: "collect_types ?props [] = Inr ?r"
    using collect_types_fresh [OF d, of "[]"] ok by auto
  have "schema_of_parsed ?doc = Inr (Some ?r)"
    using ne
    by (simp only: schema_of_parsed_def props sum.case option.case)
       (simp add: truthy_def Object_entries_def order ct Object_keys_Nil_iff)
  then have ex: "extractSchemaFromJsonSchema ?text = (Some ?r, [])"
    by (simp only: extractSchemaFromJsonSchema_def extract_try_def doc option.case sum.case)
  have "distinct (map fst ?r)"
    using d by (simp add: case_prod_unfold comp_def)
  moreover have "distinct (map fst (map (\<lambda>(k, t). (k, JString t)) schema))"
    using assms(2) by (simp add: case_prod_unfold comp_def)
  moreover have "set ?r = set (map (\<lambda>(k, t). (k, JString t)) schema)"
    by (simp add: set_EnumerableOwnProperties)
  ultimately have "map_of ?r = map_of (map (\<lambda>(k, t). (k, JString t)) schema)"
    by (simp only: map_of_inject_set)
  with gen ex show ?thesis by blast
qed

theorem X1_witness:
  "generateJsonSchemaFromSchema [(js ''name'', js ''string''), (js ''age'', js ''number'')] =
     Some (js ''{'' @ [10] @
           js ''  \"type\": \"object\",'' @ [10] @
           js ''  \"required\": ['' @ [10] @
           js ''    \"name\",'' @ [10] @
           js ''    \"age\"'' @ [10] @
           js ''  ],'' @ [10] @
           js ''  \"properties\": {'' @ [10] @
           js ''    \"name\": {'' @ [10] @
           js ''      \"type\": \"string\"'' @ [10] @
           js ''    },'' @ [10] @
           js ''    \"age\": {'' @ [10] @
           js ''      \"type\": \"number\"'' @ [10] @
           js ''    }'' @ [10] @
           js ''  }'' @ [10] @
           js ''}'') \<and>
   extractSchemaFromJsonSchema
     (js ''{'' @ [10] @
      js ''  \"type\": \"object\",'' @ [10] @
      js ''  \"required\": ['' @ [10] @
      js ''    \"name\",'' @ [10] @
      js ''    \"age\"'' @ [10] @
      js ''  ],'' @ [10] @
      js ''  \"properties\": {'' @ [10] @
      js ''    \"name\": {'' @ [10] @
      js ''      \"type\": \"string\"'' @ [10] @
      js ''    },'' @ [10] @
      js ''    \"age\": {'' @ [10] @
      js ''      \"type\": \"number\"'' @ [10] @
      js ''    }'' @ [10] @
      js ''  }'' @ [10] @
      js ''}'') =
     (Some [(js ''name'', JString (js ''string'')), (js ''age'', JString (js ''number''))], [])"
  using X1_schema_round_trip [of "[(js ''name'', js ''string''), (js ''age'', js ''number'')]"]
  by (simp add: stringify_eval json_eval)

subsection \<open>\<open>extractSchemaFromJsonSchema\<close>\<close>

lemma collect_types_Inl:
  "(\<exists>e. collect_types entries schema = Inl e) \<longleftrightarrow> JNull \<in> snd ` set entries"
proof (induction entries schema rule: collect_types.induct)
  case (1 schema)
  then show ?case by simp
next
  case (2 key v entries schema)
  then show ?case
    by (cases v) (auto simp: typeof_object_def get_property_def split: option.splits)
qed

lemma collect_types_untyped:
  "\<forall>(k, v) \<in> set entries. \<forall>t. get_property v (js ''type'') \<noteq> Inr (Some t) \<Longrightarrow>
   (\<exists>e. collect_types entries schema = Inl e) \<or> collect_types entries schema = Inr schema"
proof (induction entries schema rule: collect_types.induct)
  case (1 schema)
  then show ?case by simp
next
  case (2 key v entries schema)
  then show ?case
    by (cases "get_property v (js ''type'')") (auto split: option.splits)
qed

lemma schema_of_parsed_Inl:
  "(\<exists>e. schema_of_parsed parsed = Inl e) \<longleftrightarrow>
     parsed = JNull \<or>
     (\<exists>properties. get_property parsed (js ''properties'') = Inr (Some properties) \<and> truthy properties \<and>
        JNull \<in> snd ` set (Object_entries properties))"
proof (cases "get_property parsed (js ''properties'')")
  case (Inl e)
  then have "parsed = JNull"
    by (cases parsed) (simp_all add: get_property_def)
  with Inl show ?thesis by (simp add: schema_of_parsed_def)
next
  case (Inr r)
  then have n: "parsed \<noteq> JNull" by (auto simp: get_property_def)
  show ?thesis
  proof (cases r)
    case None
    with Inr n show ?thesis by (simp add: schema_of_parsed_def)
  next
    case (Some properties)
    show ?thesis
    proof (cases "truthy properties")
      case True
      with Inr Some n collect_types_Inl [of "Object_entries properties" "[]"] show ?thesis
        by (auto simp: schema_of_parsed_def split: sum.splits)
    next
      case False
      with Inr Some n show ?thesis by (simp add: schema_of_parsed_def)
    qed
  qed
qed

lemma schema_of_parsed_untyped:
  assumes "\<forall>properties k v t. get_property parsed (js ''properties'') = Inr (Some properties) \<and>
             (k, v) \<in> set (Object_entries properties) \<longrightarrow> get_property v (js ''type'') \<noteq> Inr (Some t)"
  shows "(\<exists>e. schema_of_parsed parsed = Inl e) \<or> schema_of_parsed parsed = Inr None"
proof (cases "get_property parsed (js ''properties'')")
  case (Inl e)
  then show ?thesis by (simp add: schema_of_parsed_def)
next
  case (Inr r)
  show ?thesis
  proof (cases r)
    case None
    with Inr show ?thesis by (simp add: schema_of_parsed_def)
  next
    case (Some properties)
    with Inr assms have "\<forall>(k, v) \<in> set (Object_entries properties). \<forall>t. get_property v (js ''type'') \<noteq> Inr (Some t)"
      by blast
    from collect_types_untyped [OF this, of "[]"] Inr Some show ?thesis
      by (auto simp: schema_of_parsed_def Object_keys_Nil_iff)
  qed
qed

text \<open>
  C9, amended.  \<open>extractSchemaFromJsonSchema\<close> returns a value for every text: an exception
  of the body is caught and gives \<open>null\<close>.  When both parse attempts fail it returns \<open>null\<close>
  and logs nothing.  When the text parses to \<open>null\<close>, or to a document whose truthy
  \<open>properties\<close> has the value \<open>null\<close> for a key, the body throws: the diagnostic is logged
  and the result is \<open>null\<close>.  On any other parsed document that has no property with a
  \<open>type\<close> entry it returns \<open>null\<close> and logs nothing.  A diagnostic is logged in no other
  case.
\<close>

theorem C9_extract_returns_null:
  "(JSON_parse (trim s) = None \<and> JSON_parse (trim (cleanup s)) = None \<longrightarrow>
      extractSchemaFromJsonSchema s = (None, [])) \<and>
   (\<forall>parsed.
      parsed_document s = Some parsed \<and>
      (parsed = JNull \<or>
       (\<exists>properties. get_property parsed (js ''properties'') = Inr (Some properties) \<and>
          truthy properties \<and> JNull \<in> snd ` set (Object_entries properties))) \<longrightarrow>
      extractSchemaFromJsonSchema s = (None, [js ''Error parsing JSON schema:''])) \<and>
   (\<forall>parsed.
      parsed_document s = Some parsed \<and>
      \<not> (parsed = JNull \<or>
         (\<exists>properties. get_property parsed (js ''properties'') = Inr (Some properties) \<and>
            truthy properties \<and> JNull \<in> snd ` set (Object_entries properties))) \<and>
      (\<forall>properties k v t.
         get_property parsed (js ''properties'') = Inr (Some properties) \<and>
         (k, v) \<in> set (Object_entries properties) \<longrightarrow>
         get_property v (js ''type'') \<noteq> Inr (Some t)) \<longrightarrow>
      extractSchemaFromJsonSchema s = (None, [])) \<and>
   (snd (extractSchemaFromJsonSchema s) \<noteq> [] \<longleftrightarrow>
      (\<exists>parsed. parsed_document s = Some parsed \<and>
         (parsed = JNull \<or>
          (\<exists>properties. get_property parsed (js ''properties'') = Inr (Some properties) \<and>
             truthy properties \<and> JNull \<in> snd ` set (Object_entries properties)))))"
proof -
  have 1: "extractSchemaFromJsonSchema s = (None, [])"
    if "JSON_parse (trim s) = None \<and> JSON_parse (trim (cleanup s)) = None"
    using that by (simp add: extractSchemaFromJsonSchema_def extract_try_def parsed_document_def)
  have 2: "extractSchemaFromJsonSchema s = (None, [js ''Error parsing JSON schema:''])"
    if p: "parsed_document s = Some parsed"
      and t: "parsed = JNull \<or>
       (\<exists>properties. get_property parsed (js ''properties'') = Inr (Some properties) \<and>
          truthy properties \<and> JNull \<in> snd ` set (Object_entries properties))" for parsed
  proof -
    from t schema_of_parsed_Inl [of parsed] obtain e where "schema_of_parsed parsed = Inl e"
      by blast
    with p show ?thesis
      by (simp add: extractSchemaFromJsonSchema_def extract_try_def)
  qed
  have 3: "extractSchemaFromJsonSchema s = (None, [])"
    if p: "parsed_document s = Some parsed"
      and t: "\<not> (parsed = JNull \<or>
         (\<exists>properties. get_property parsed (js ''properties'') = Inr (Some properties) \<and>
            truthy properties \<and> JNull \<in> snd ` set (Object_entries properties)))"
      and u: "\<forall>properties k v t.
         get_property parsed (js ''properties'') = Inr (Some properties) \<and>
         (k, v) \<in> set (Object_entries properties) \<longrightarrow>
         get_property v (js ''type'') \<noteq> Inr (Some t)" for parsed
  proof -
    from t schema_of_parsed_Inl [of parsed] have "\<nexists>e. schema_of_parsed parsed = Inl e"
      by blast
    with schema_of_parsed_untyped [OF u] have "schema_of_parsed parsed = Inr None"
      by blast
    with p show ?thesis
      by (simp add: extractSchemaFromJsonSchema_def extract_try_def)
  qed
  have 4: "snd (extractSchemaFromJsonSchema s) \<noteq> [] \<longleftrightarrow>
      (\<exists>parsed. parsed_document s = Some parsed \<and>
         (parsed = JNull \<or>
          (\<exists>properties. get_property parsed (js ''properties'') = Inr (Some properties) \<and>
             truthy properties \<and> JNull \<in> snd ` set (Object_entries properties))))"
  proof (cases "parsed_document s")
    case None
    then show ?thesis by (simp add: extractSchemaFromJsonSchema_def extract_try_def)
  next
    case (Some parsed)
    have "snd (extractSchemaFromJsonSchema s) \<noteq> [] \<longleftrightarrow> (\<exists>e. schema_of_parsed parsed = Inl e)"
      by (cases "schema_of_parsed parsed")
         (simp_all add: extractSchemaFromJsonSchema_def extract_try_def Some js_def)
    with schema_of_parsed_Inl [of parsed] Some show ?thesis by simp
  qed
  from 1 2 3 4 show ?thesis by blast
qed

theorem C9_witness:
  "JSON_parse (trim (js ''not json'')) = None \<and> JSON_parse (trim (cleanup (js ''not json''))) = None \<and>
   extractSchemaFromJsonSchema (js ''not json'') = (None, []) \<and>
   parsed_document (js ''null'') = Some JNull \<and>
   extractSchemaFromJsonSchema (js ''null'') = (None, [js ''Error parsing JSON schema:'']) \<and>
   parsed_document (js ''{\"properties\":{\"a\":null}}'') =
     Some (JObject [(js ''properties'', JObject [(js ''a'', JNull)])]) \<and>
   extractSchemaFromJsonSchema (js ''{\"properties\":{\"a\":null}}'') =
     (None, [js ''Error parsing JSON schema:'']) \<and>
   parsed_document (js ''{\"properties\":{\"a\":1}}'') =
     Some (JObject [(js ''properties'', JObject [(js ''a'', JNumber (js ''1''))])]) \<and>
   extractSchemaFromJsonSchema (js ''{\"properties\":{\"a\":1}}'') = (None, [])"
proof -
  have a: "JSON_parse (trim (js ''not json'')) = None \<and> JSON_parse (trim (cleanup (js ''not json''))) = None"
    by (simp add: json_eval)
  have b: "parsed_document (js ''null'') = Some JNull"
    by (simp add: json_eval)
  have c: "parsed_document (js ''{\"properties\":{\"a\":null}}'') =
     Some (JObject [(js ''properties'', JObject [(js ''a'', JNull)])])"
    by (simp add: json_eval)
  have d: "parsed_document (js ''{\"properties\":{\"a\":1}}'') =
     Some (JObject [(js ''properties'', JObject [(js ''a'', JNumber (js ''1''))])])"
    by (simp add: json_eval)
  have e: "EnumerableOwnProperties [(js ''a'', v)] = [(js ''a'', v)]" for v :: json
    by (simp add: order_eval)
  from a b c d
    C9_extract_returns_null [of "js ''not json''"]
    C9_extract_returns_null [of "js ''null''"]
    C9_extract_returns_null [of "js ''{\"properties\":{\"a\":null}}''"]
    C9_extract_returns_null [of "js ''{\"properties\":{\"a\":1}}''"]
  show ?thesis
    by (simp add: get_property_def Object_entries_def truthy_def e)
qed

text \<open>
  The claim as stated fails on the text \<open>abc\<close>, on which both parse attempts fail, and on
  the text \<open>{}\<close>, whose document has no property with a \<open>type\<close> entry: both give \<open>null\<close>
  and no diagnostic is logged.
\<close>

theorem C9_counterexample:
  "JSON_parse (trim (js ''abc'')) = None \<and> JSON_parse (trim (cleanup (js ''abc''))) = None \<and>
   extractSchemaFromJsonSchema (js ''abc'') = (None, []) \<and>
   parsed_document (js ''{}'') = Some (JObject []) \<and>
   extractSchemaFromJsonSchema (js ''{}'') = (None, [])"
  by (simp add: json_eval)

subsection \<open>The editor of the JSON schema text\<close>

lemma trim_Nil_iff: "trim s = [] \<longleftrightarrow> list_all is_js_whitespace s"
proof
  assume "trim s = []"
  then have all: "\<forall>x \<in> set (dropWhile is_js_whitespace s). is_js_whitespace x"
    by (simp add: trim_def dropWhile_eq_Nil_conv)
  have "dropWhile is_js_whitespace s = []"
  proof (cases "dropWhile is_js_whitespace s")
    case Nil
    then show ?thesis .
  next
    case (Cons x xs)
    with hd_dropWhile [of is_js_whitespace s] have "\<not> is_js_whitespace x" by simp
    moreover from all Cons have "is_js_whitespace x" by simp
    ultimately show ?thesis by simp
  qed
  then show "list_all is_js_whitespace s"
    by (simp add: dropWhile_eq_Nil_conv list_all_iff)
next
  assume "list_all is_js_whitespace s"
  then show "trim s = []"
    by (auto simp: trim_def list_all_iff dest: set_dropWhileD)
qed

lemma replace2_absent: "a \<notin> set s \<Longrightarrow> replace2 a b r s = s"
  by (induction a b r s rule: replace2.induct) auto

lemma replace1_absent: "a \<notin> set s \<Longrightarrow> replace1 a r s = s"
  by (induction s) (auto simp: replace1_def)

lemma cleanup_blank:
  assumes "trim v = []"
  shows "cleanup v = []"
proof -
  from assms have "list_all is_js_whitespace v" by (simp add: trim_Nil_iff)
  moreover have "\<not> is_js_whitespace backslash" by (simp add: is_js_whitespace_def)
  ultimately have "backslash \<notin> set v" by (auto simp: list_all_iff)
  then show ?thesis
    by (simp add: cleanup_def replace2_absent replace1_absent assms)
qed

lemma JSON_parse_Nil: "JSON_parse [] = None"
  by (simp add: JSON_parse_def)

lemma trim_Nil: "trim [] = []"
  by (simp add: trim_def)

lemma extract_blank: "trim v = [] \<Longrightarrow> extractSchemaFromJsonSchema v = (None, [])"
  by (simp add: extractSchemaFromJsonSchema_def extract_try_def parsed_document_def cleanup_blank
      JSON_parse_Nil trim_Nil)

text \<open>
  C3.  An edit of the \<open>output_json_schema\<close> text to \<open>v\<close> dispatches one
  \<open>updateNodeConfigOnly\<close> with the new working copy.  If \<open>v\<close> is empty (or blank), only
  \<open>output_json_schema\<close> is replaced, by \<open>v\<close>.  If the extraction succeeds on \<open>v\<close>,
  \<open>output_json_schema\<close> is replaced by \<open>v\<close> and \<open>output_schema\<close> by the extracted mapping, in
  the same object.  If the extraction fails, only \<open>output_json_schema\<close> is replaced and
  \<open>output_schema\<close> stays as it was.  The text \<open>{"properties":{"foo":{"type":"string"}}}\<close>
  commits itself and the schema \<open>{foo: "string"}\<close>.
\<close>

theorem C3_updateOutputJsonSchema:
  "(trim v = [] \<longrightarrow>
      updateOutputJsonSchema nodeID now v st =
        (st\<lparr>currentNodeConfig := (currentNodeConfig st)\<lparr>output_json_schema := Some v\<rparr>\<rparr>,
         [updateNodeConfigOnly nodeID ((currentNodeConfig st)\<lparr>output_json_schema := Some v\<rparr>)])) \<and>
   (\<forall>simpleSchema. fst (extractSchemaFromJsonSchema v) = Some simpleSchema \<longrightarrow>
      updateOutputJsonSchema nodeID now v st =
        (st\<lparr>currentNodeConfig :=
              (currentNodeConfig st)\<lparr>output_json_schema := Some v, output_schema := Some simpleSchema\<rparr>\<rparr>,
         [updateNodeConfigOnly nodeID
            ((currentNodeConfig st)\<lparr>output_json_schema := Some v, output_schema := Some simpleSchema\<rparr>)])) \<and>
   (fst (extractSchemaFromJsonSchema v) = None \<longrightarrow>
      updateOutputJsonSchema nodeID now v st =
        (st\<lparr>currentNodeConfig := (currentNodeConfig st)\<lparr>output_json_schema := Some v\<rparr>\<rparr>,
         [updateNodeConfigOnly nodeID ((currentNodeConfig st)\<lparr>output_json_schema := Some v\<rparr>)]) \<and>
      output_schema (currentNodeConfig (fst (updateOutputJsonSchema nodeID now v st))) =
        output_schema (currentNodeConfig st)) \<and>
   updateOutputJsonSchema nodeID now (js ''{\"properties\":{\"foo\":{\"type\":\"string\"}}}'') st =
     (st\<lparr>currentNodeConfig :=
           (currentNodeConfig st)\<lparr>output_json_schema := Some (js ''{\"properties\":{\"foo\":{\"type\":\"string\"}}}''),
                                 output_schema := Some [(js ''foo'', JString (js ''string''))]\<rparr>\<rparr>,
      [updateNodeConfigOnly nodeID
         ((currentNodeConfig st)\<lparr>output_json_schema := Some (js ''{\"properties\":{\"foo\":{\"type\":\"string\"}}}''),
                                 output_schema := Some [(js ''foo'', JString (js ''string''))]\<rparr>)])"
proof -
  have blank: "fst (extractSchemaFromJsonSchema v) = None" if "trim v = []"
    using extract_blank [OF that] by simp
  have foo: "extractSchemaFromJsonSchema (js ''{\"properties\":{\"foo\":{\"type\":\"string\"}}}'') =
      (Some [(js ''foo'', JString (js ''string''))], [])"
    by (simp add: json_eval)
  have foo_trim: "trim (js ''{\"properties\":{\"foo\":{\"type\":\"string\"}}}'') \<noteq> []"
    by (simp add: trim_def is_js_whitespace_def js_def)
  show ?thesis
    using blank
    by (auto simp: updateOutputJsonSchema_def handleInputChange_def Let_def foo foo_trim
        split: option.splits)
qed

theorem C3_witness:
  "trim (js '' '') = [] \<and>
   updateOutputJsonSchema (js ''n1'') 0 (js '' '') (mount None) =
     (mount (Some (empty_config\<lparr>output_json_schema := Some (js '' '')\<rparr>)),
      [updateNodeConfigOnly (js ''n1'') (empty_config\<lparr>output_json_schema := Some (js '' '')\<rparr>)]) \<and>
   fst (extractSchemaFromJsonSchema (js ''{\"properties\":{\"n\":{\"type\":\"number\"}}}'')) =
     Some [(js ''n'', JString (js ''number''))] \<and>
   updateOutputJsonSchema (js ''n1'') 0 (js ''{\"properties\":{\"n\":{\"type\":\"number\"}}}'') (mount None) =
     (mount (Some (empty_config\<lparr>output_json_schema := Some (js ''{\"properties\":{\"n\":{\"type\":\"number\"}}}''),
                                 output_schema := Some [(js ''n'', JString (js ''number''))]\<rparr>)),
      [updateNodeConfigOnly (js ''n1'')
         (empty_config\<lparr>output_json_schema := Some (js ''{\"properties\":{\"n\":{\"type\":\"number\"}}}''),
                        output_schema := Some [(js ''n'', JString (js ''number''))]\<rparr>)]) \<and>
   fst (extractSchemaFromJsonSchema (js ''{oops'')) = None \<and>
   updateOutputJsonSchema (js ''n1'') 0 (js ''{oops'')
       (mount (Some (empty_config\<lparr>output_schema := Some [(js ''a'', JString (js ''string''))]\<rparr>))) =
     (mount (Some (empty_config\<lparr>output_schema := Some [(js ''a'', JString (js ''string''))],
                                 output_json_schema := Some (js ''{oops'')\<rparr>)),
      [updateNodeConfigOnly (js ''n1'')
         (empty_config\<lparr>output_schema := Some [(js ''a'', JString (js ''string''))],
                        output_json_schema := Some (js ''{oops'')\<rparr>)])"
proof -
  have a: "trim (js '' '') = []"
    by (simp add: trim_def is_js_whitespace_def js_def)
  have b: "fst (extractSchemaFromJsonSchema (js ''{\"properties\":{\"n\":{\"type\":\"number\"}}}'')) =
     Some [(js ''n'', JString (js ''number''))]"
    by (simp add: json_eval)
  have c: "fst (extractSchemaFromJsonSchema (js ''{oops'')) = None"
    by (simp add: json_eval)
  show ?thesis
    using a b c
      C3_updateOutputJsonSchema [of "js '' ''" "js ''n1''" 0 "mount None"]
      C3_updateOutputJsonSchema [of "js ''{\"properties\":{\"n\":{\"type\":\"number\"}}}''" "js ''n1''" 0 "mount None"]
      C3_updateOutputJsonSchema [of "js ''{oops''" "js ''n1''" 0
        "mount (Some (empty_config\<lparr>output_schema := Some [(js ''a'', JString (js ''string''))]\<rparr>))"]
    by (simp add: mount_def empty_config_def)
qed

subsection \<open>The editor of the simple schema\<close>

text \<open>
  An edit of the simple schema dispatches one \<open>updateNodeConfigOnly\<close> with the new
  working copy.  For the empty mapping only \<open>output_schema\<close> is replaced.  When a JSON
  schema text is generated for the mapping, \<open>output_schema\<close> and \<open>output_json_schema\<close> are
  replaced in the same object; when none is generated, only \<open>output_schema\<close> is replaced
  and the JSON schema text stays as it was.
\<close>

theorem X3_updateOutputSchema:
  "(newValue = [] \<longrightarrow>
      updateOutputSchema nodeID now newValue st =
        (st\<lparr>currentNodeConfig := (currentNodeConfig st)\<lparr>output_schema := Some []\<rparr>\<rparr>,
         [updateNodeConfigOnly nodeID ((currentNodeConfig st)\<lparr>output_schema := Some []\<rparr>)])) \<and>
   (\<forall>jsonSchema. generateJsonSchemaFromSchema newValue = Some jsonSchema \<longrightarrow>
      updateOutputSchema nodeID now newValue st =
        (st\<lparr>currentNodeConfig :=
              (currentNodeConfig st)\<lparr>output_schema := Some (map (\<lambda>(k, t). (k, JString t)) newValue),
                                    output_json_schema := Some jsonSchema\<rparr>\<rparr>,
         [updateNodeConfigOnly nodeID
            ((currentNodeConfig st)\<lparr>output_schema := Some (map (\<lambda>(k, t). (k, JString t)) newValue),
                                    output_json_schema := Some jsonSchema\<rparr>)])) \<and>
   (generateJsonSchemaFromSchema newValue = None \<longrightarrow>
      updateOutputSchema nodeID now newValue st =
        (st\<lparr>currentNodeConfig :=
              (currentNodeConfig st)\<lparr>output_schema := Some (map (\<lambda>(k, t). (k, JString t)) newValue)\<rparr>\<rparr>,
         [updateNodeConfigOnly nodeID
            ((currentNodeConfig st)\<lparr>output_schema := Some (map (\<lambda>(k, t). (k, JString t)) newValue)\<rparr>)]) \<and>
      output_json_schema (currentNodeConfig (fst (updateOutputSchema nodeID now newValue st))) =
        output_json_schema (currentNodeConfig st))"
proof -
  have e: "generateJsonSchemaFromSchema [] = None"
    by (simp add: generateJsonSchemaFromSchema_def Object_keys_Nil_iff)
  show ?thesis
    by (auto simp: updateOutputSchema_def handleInputChange_def Let_def length_Object_keys e
        split: option.splits)
qed

theorem X3_witness:
  "updateOutputSchema (js ''n1'') 0 [] (mount None) =
     (mount (Some (empty_config\<lparr>output_schema := Some []\<rparr>)),
      [updateNodeConfigOnly (js ''n1'') (empty_config\<lparr>output_schema := Some []\<rparr>)]) \<and>
   generateJsonSchemaFromSchema [(js ''a'', [])] = None \<and>
   updateOutputSchema (js ''n1'') 0 [(js ''a'', [])] (mount None) =
     (mount (Some (empty_config\<lparr>output_schema := Some [(js ''a'', JString [])]\<rparr>)),
      [updateNodeConfigOnly (js ''n1'') (empty_config\<lparr>output_schema := Some [(js ''a'', JString [])]\<rparr>)]) \<and>
   generateJsonSchemaFromSchema [(js ''a'', js ''string'')] =
     Some (js ''{'' @ [10] @
           js ''  \"type\": \"object\",'' @ [10] @
           js ''  \"required\": ['' @ [10] @
           js ''    \"a\"'' @ [10] @
           js ''  ],'' @ [10] @
           js ''  \"properties\": {'' @ [10] @
           js ''    \"a\": {'' @ [10] @
           js ''      \"type\": \"string\"'' @ [10] @
           js ''    }'' @ [10] @
           js ''  }'' @ [10] @
           js ''}'') \<and>
   output_schema (currentNodeConfig (fst (updateOutputSchema (js ''n1'') 0 [(js ''a'', js ''string'')] (mount None)))) =
     Some [(js ''a'', JString (js ''string''))]"
proof -
  have a: "generateJsonSchemaFromSchema [(js ''a'', [])] = None"
    by (simp add: stringify_eval json_eval)
  have b: "generateJsonSchemaFromSchema [(js ''a'', js ''string'')] =
     Some (js ''{'' @ [10] @
           js ''  \"type\": \"object\",'' @ [10] @
           js ''  \"required\": ['' @ [10] @
           js ''    \"a\"'' @ [10] @
           js ''  ],'' @ [10] @
           js ''  \"properties\": {'' @ [10] @
           js ''    \"a\": {'' @ [10] @
           js ''      \"type\": \"string\"'' @ [10] @
           js ''    }'' @ [10] @
           js ''  }'' @ [10] @
           js ''}'')"
    by (simp add: stringify_eval json_eval)
  from a b
    X3_updateOutputSchema [of "[]" "js ''n1''" 0 "mount None"]
    X3_updateOutputSchema [of "[(js ''a'', [])]" "js ''n1''" 0 "mount None"]
    X3_updateOutputSchema [of "[(js ''a'', js ''string'')]" "js ''n1''" 0 "mount None"]
  show ?thesis
    by (simp add: mount_def empty_config_def)
qed

end
